theory Spec2Isabelle
  imports
    Complex_Main
    "HOL-Library.Char_ord"
    "HOL-Library.List_Lexorder"
    "HOL-Library.Multiset"
begin

section \<open>The persistence layer of database.py\<close>

text \<open>
  The module keeps four SQLite tables (users, exercises, grades, user_progress) and
  exposes one Python function per operation. Each function has the same shape:
  \<^verbatim>\<open>
    try:
        cursor = connection.cursor()
        ... cursor.execute(...) ...
        connection.commit()
    except sqlite3.Error as err:
        print(f"<prefix>{err}")
    finally:
        cursor.close()
  \<close>
  The model below follows that shape. A connection is a record holding the tables as the
  connection sees them, the tables as last committed, whether the connection has been
  closed, and the lines printed so far. SQL statements are functions on the tables that
  return either an exception or the new tables; Python exceptions are values.

  Modelling decisions, all written out in the definitions:
  \<^item> columns of type REAL and Python floats are IEEE 754 doubles: a value is a real
    number of the double grid, an infinity or NaN, and every arithmetic operation
    rounds to the nearest double, ties to even (\<open>round64\<close>);
  \<^item> a grade is a float (an int grade that SQLite can hold is stored in the REAL column
    as, and enters the arithmetic as, the double it converts to);
  \<^item> Python ints are \<open>int\<close>; an int bound to a statement must fit SQLite's signed
    64-bit INTEGER, otherwise the binding raises OverflowError; an int that meets a
    float is converted, and the conversion raises OverflowError when no finite double
    is near it;
  \<^item> TEXT columns are \<open>string\<close>, compared bytewise (SQLite's BINARY collation is the
    lexicographic order of \<open>HOL-Library.List_Lexorder\<close> over \<open>HOL-Library.Char_ord\<close>);
  \<^item> a table is the list of its rows in rowid order, which is insertion order;
  \<^item> \<open>datetime.now(timezone.utc).strftime(...)\<close> is an input of the operation;
  \<^item> \<open>create_tables\<close>, \<open>drop_all_tables\<close> and \<open>debug_script\<close> (schema set-up and the
    raw query executor) are not modelled: the schema is the one \<open>create_tables\<close> makes.
\<close>

subsection \<open>Python floats\<close>

text \<open>
  A double by its value: a finite real (the sign of zero is not kept, no operation of
  the module depends on it), plus or minus infinity, or NaN. \<open>Fin r\<close> is a double
  when \<open>r\<close> is on the grid, that is when \<open>round64 r = Fin r\<close>.
\<close>

datatype float64 = Fin real | PInf | NInf | NaN

text \<open>The binary exponent of a non-zero real: \<open>2 powi expo x \<le> \<bar>x\<bar> < 2 powi (expo x + 1)\<close>.\<close>

definition expo :: "real \<Rightarrow> int" where
  "expo x = \<lfloor>log 2 \<bar>x\<bar>\<rfloor>"

text \<open>Rounding to the nearest integer, a tie going to the even one.\<close>

definition half_even :: "real \<Rightarrow> int" where
  "half_even q =
     (let f = \<lfloor>q\<rfloor>; d = q - of_int f
      in if d < 1 / 2 then f else if 1 / 2 < d then f + 1 else if even f then f else f + 1)"

text \<open>
  Rounding a real to binary64: 53 significant bits, the spacing of the subnormals
  (\<open>2 powi - 1074\<close>) below \<open>2 powi - 1022\<close>, and an infinity when the rounded value
  reaches \<open>2 ^ 1024\<close>.
\<close>

definition round64 :: "real \<Rightarrow> float64" where
  "round64 x =
     (if x = 0 then Fin 0
      else let u = 2 powi (max (expo x) (- 1022) - 52);
               y = of_int (half_even (x / u)) * u
           in if 2 ^ 1024 \<le> \<bar>y\<bar> then (if 0 < x then PInf else NInf) else Fin y)"

fun fadd :: "float64 \<Rightarrow> float64 \<Rightarrow> float64" where
  "fadd (Fin a) (Fin b) = round64 (a + b)"
| "fadd NaN _ = NaN"
| "fadd _ NaN = NaN"
| "fadd PInf NInf = NaN"
| "fadd NInf PInf = NaN"
| "fadd PInf _ = PInf"
| "fadd _ PInf = PInf"
| "fadd NInf _ = NInf"
| "fadd _ NInf = NInf"

fun fmul :: "float64 \<Rightarrow> float64 \<Rightarrow> float64" where
  "fmul (Fin a) (Fin b) = round64 (a * b)"
| "fmul NaN _ = NaN"
| "fmul _ NaN = NaN"
| "fmul (Fin a) PInf = (if a = 0 then NaN else if 0 < a then PInf else NInf)"
| "fmul (Fin a) NInf = (if a = 0 then NaN else if 0 < a then NInf else PInf)"
| "fmul PInf (Fin b) = (if b = 0 then NaN else if 0 < b then PInf else NInf)"
| "fmul NInf (Fin b) = (if b = 0 then NaN else if 0 < b then NInf else PInf)"
| "fmul PInf PInf = PInf"
| "fmul PInf NInf = NInf"
| "fmul NInf PInf = NInf"
| "fmul NInf NInf = PInf"

subsection \<open>Rows and tables\<close>

record user_row =
  u_id :: int
  u_name :: string
  u_created_at :: string

record exercise_row =
  e_id :: int
  e_name :: string
  e_description :: string

record grade_row =
  g_id :: int
  g_user_id :: int
  g_exercise_id :: int
  g_grade :: float64
  g_time_attempt :: string

text \<open>\<open>average_grade\<close> has no NOT NULL constraint: None is NULL.\<close>

record progress_row =
  p_user_id :: int
  p_exercise_id :: int
  p_average_grade :: "float64 option"
  p_attempt_count :: int
  p_last_attempt :: string

text \<open>
  The three \<open>seq_\<close> fields are the entries of \<open>sqlite_sequence\<close> that AUTOINCREMENT
  keeps for users, exercises and grades.
\<close>

record database =
  users :: "user_row list"
  exercises :: "exercise_row list"
  grades :: "grade_row list"
  user_progress :: "progress_row list"
  seq_users :: int
  seq_exercises :: int
  seq_grades :: int

definition empty_database :: database where
  "empty_database =
     \<lparr>users = [], exercises = [], grades = [], user_progress = [],
      seq_users = 0, seq_exercises = 0, seq_grades = 0\<rparr>"

subsection \<open>Errors and exceptions\<close>

datatype constraint = NOT_NULL | FOREIGN_KEY | PRIMARY_KEY

text \<open>The subclasses of \<open>sqlite3.Error\<close> that the statements of this module can raise.\<close>

datatype sql_error =
    IntegrityError constraint
  | OperationalError string
  | ProgrammingError string

text \<open>The exceptions of the model; only \<open>SqliteError\<close> is an \<open>sqlite3.Error\<close>.\<close>

datatype exn =
    SqliteError sql_error
  | ZeroDivisionError
  | UnboundLocalError
  | OverflowError
  | TypeError

text \<open>
  Python's float division: a zero divisor raises ZeroDivisionError, anything else is
  the IEEE quotient.
\<close>

fun fdiv :: "float64 \<Rightarrow> float64 \<Rightarrow> exn + float64" where
  "fdiv (Fin a) (Fin b) = (if b = 0 then Inl ZeroDivisionError else Inr (round64 (a / b)))"
| "fdiv PInf (Fin b) =
     (if b = 0 then Inl ZeroDivisionError else Inr (if 0 < b then PInf else NInf))"
| "fdiv NInf (Fin b) =
     (if b = 0 then Inl ZeroDivisionError else Inr (if 0 < b then NInf else PInf))"
| "fdiv NaN (Fin b) = (if b = 0 then Inl ZeroDivisionError else Inr NaN)"
| "fdiv _ NaN = Inr NaN"
| "fdiv (Fin a) _ = Inr (Fin 0)"
| "fdiv _ _ = Inr NaN"

text \<open>
  The conversion of a Python int where it meets a float (\<open>float * int\<close>,
  \<open>float / int\<close>): correctly rounded, and OverflowError (int too large to convert
  to float) when the rounded value is not finite.
\<close>

definition float_of_int :: "int \<Rightarrow> exn + float64" where
  "float_of_int n = (case round64 (of_int n) of Fin y \<Rightarrow> Inr (Fin y) | _ \<Rightarrow> Inl OverflowError)"

subsection \<open>The connection\<close>

record conn =
  closed :: bool
  db :: database
  committed :: database
  stdout :: "(string \<times> sql_error) list"

definition initial :: conn where
  "initial = \<lparr>closed = False, db = empty_database, committed = empty_database, stdout = []\<rparr>"

text \<open>\<open>print(f"<prefix>{err}")\<close>: the line is kept as the prefix and the error.\<close>

definition print_err :: "string \<Rightarrow> sql_error \<Rightarrow> conn \<Rightarrow> conn" where
  "print_err prefix err c = c\<lparr>stdout := stdout c @ [(prefix, err)]\<rparr>"

text \<open>
  \<open>cursor.execute\<close> of a statement that writes: a statement that fails changes nothing
  (SQLite undoes the statement, the transaction stays open); one that succeeds changes
  the connection's view, not yet what is committed.
\<close>

definition execute :: "(database \<Rightarrow> exn + database) \<Rightarrow> conn \<Rightarrow> (exn + unit) \<times> conn" where
  "execute stmt c =
     (case stmt (db c) of
        Inl e \<Rightarrow> (Inl e, c)
      | Inr d \<Rightarrow> (Inr (), c\<lparr>db := d\<rparr>))"

text \<open>\<open>cursor.execute\<close> of a SELECT, giving the rows that the fetch will read.\<close>

definition query :: "(database \<Rightarrow> exn + 'a) \<Rightarrow> conn \<Rightarrow> (exn + 'a) \<times> conn" where
  "query stmt c =
     (case stmt (db c) of
        Inl e \<Rightarrow> (Inl e, c)
      | Inr rows \<Rightarrow> (Inr rows, c))"

definition commit :: "conn \<Rightarrow> (exn + unit) \<times> conn" where
  "commit c = (Inr (), c\<lparr>committed := db c\<rparr>)"

text \<open>One statement after another: an exception skips the rest of the \<open>try\<close> block.\<close>

definition bind :: "(conn \<Rightarrow> (exn + 'a) \<times> conn) \<Rightarrow> ('a \<Rightarrow> conn \<Rightarrow> (exn + 'b) \<times> conn)
    \<Rightarrow> conn \<Rightarrow> (exn + 'b) \<times> conn" where
  "bind m f c = (case m c of (Inl e, c') \<Rightarrow> (Inl e, c') | (Inr x, c') \<Rightarrow> f x c')"

definition fetchone :: "'a list \<Rightarrow> 'a option" where
  "fetchone rows = (case rows of [] \<Rightarrow> None | r # _ \<Rightarrow> Some r)"

text \<open>
  The \<open>try / except sqlite3.Error / finally\<close> frame shared by every operation.
  \<open>connection.cursor()\<close> is the first statement of the \<open>try\<close> block. On a closed
  connection it raises \<open>sqlite3.ProgrammingError\<close>; the handler prints it; then
  \<open>finally: cursor.close()\<close> reads the local \<open>cursor\<close>, which was never bound, and
  that raises \<open>UnboundLocalError\<close>, which replaces whatever the handler was returning.
  On an open connection the body runs; an \<open>sqlite3.Error\<close> is printed and the
  operation returns \<open>dflt\<close> (what the handler returns, None where it has no
  \<open>return\<close>); any other exception passes through the frame.
\<close>

definition try_cursor :: "string \<Rightarrow> 'a \<Rightarrow> (conn \<Rightarrow> (exn + 'a) \<times> conn) \<Rightarrow> conn \<Rightarrow> (exn + 'a) \<times> conn" where
  "try_cursor prefix dflt body c =
     (if closed c then
        (Inl UnboundLocalError,
         print_err prefix (ProgrammingError ''Cannot operate on a closed database.'') c)
      else
        (case body c of
           (Inl (SqliteError err), c') \<Rightarrow> (Inr dflt, print_err prefix err c')
         | (Inl e, c') \<Rightarrow> (Inl e, c')
         | (Inr v, c') \<Rightarrow> (Inr v, c')))"

subsection \<open>The schema of create_tables\<close>

definition table_names :: "string list" where
  "table_names = [''users'', ''exercises'', ''grades'', ''user_progress'']"

text \<open>A statement naming a table that the schema does not have fails when it is prepared.\<close>

definition on_table :: "string \<Rightarrow> exn + 'a \<Rightarrow> exn + 'a" where
  "on_table t r =
     (if t \<in> set table_names then r
      else Inl (SqliteError (OperationalError (''no such table: '' @ t))))"

text \<open>
  The parameters are bound after the statement is prepared and before it runs. An int
  outside SQLite's signed 64-bit range makes the binding raise OverflowError, which is
  not an \<open>sqlite3.Error\<close>.
\<close>

definition in_int64 :: "int \<Rightarrow> bool" where
  "in_int64 i = (- (2 ^ 63) \<le> i \<and> i < 2 ^ 63)"

definition bind_ints :: "int list \<Rightarrow> exn + 'a \<Rightarrow> exn + 'a" where
  "bind_ints ps r = (if list_all in_int64 ps then r else Inl OverflowError)"

text \<open>A NaN bound to a parameter is stored as NULL.\<close>

definition sql_real :: "float64 \<Rightarrow> float64 option" where
  "sql_real x = (if x = NaN then None else Some x)"

text \<open>
  AUTOINCREMENT: the new rowid is one more than the largest rowid the table has ever
  held (\<open>sqlite_sequence\<close>) and than every rowid now in it; when that largest rowid is
  the largest 64-bit integer the insert fails with SQLITE_FULL.
\<close>

definition last_rowid :: "int \<Rightarrow> int list \<Rightarrow> int" where
  "last_rowid seq ids = fold max ids seq"

definition next_rowid :: "int \<Rightarrow> int list \<Rightarrow> exn + int" where
  "next_rowid seq ids =
     (if last_rowid seq ids + 1 < 2 ^ 63 then Inr (last_rowid seq ids + 1)
      else Inl (SqliteError (OperationalError ''database or disk is full'')))"

subsection \<open>calculate_progress\<close>

text \<open>
  \<^verbatim>\<open>
    old_average_grade, old_attempts = progress or (0,0)
    new_attempts = old_attempts + 1
    new_average = ((old_average_grade * old_attempts) + new_grade) / new_attempts
    return new_average, new_attempts
  \<close>
  \<open>progress\<close> is the row fetched by the caller (a pair) or None; a pair is never falsy,
  so \<open>progress or (0,0)\<close> replaces None only. The average and the new grade are floats,
  the counts are ints, converted where they meet a float: \<open>old_attempts\<close> in the
  product, \<open>new_attempts\<close> in the quotient. Every operation rounds.
\<close>

definition calculate_progress :: "(float64 \<times> int) option \<Rightarrow> float64 \<Rightarrow> exn + (float64 \<times> int)" where
  "calculate_progress progress new_grade =
     (let (old_average_grade, old_attempts) = (case progress of None \<Rightarrow> (Fin 0, 0) | Some p \<Rightarrow> p);
          new_attempts = old_attempts + 1
      in case float_of_int old_attempts of
           Inl e \<Rightarrow> Inl e
         | Inr k \<Rightarrow>
             (case float_of_int new_attempts of
                Inl e \<Rightarrow> Inl e
              | Inr d \<Rightarrow>
                  (case fdiv (fadd (fmul old_average_grade k) new_grade) d of
                     Inl e \<Rightarrow> Inl e
                   | Inr new_average \<Rightarrow> Inr (new_average, new_attempts))))"

text \<open>
  The call as \<open>update_user_progression\<close> makes it, with the row it fetched. A NULL
  average arrives as None, and \<open>None * old_attempts\<close> raises TypeError.
\<close>

definition calculate_progress_of_row ::
    "(float64 option \<times> int) option \<Rightarrow> float64 \<Rightarrow> exn + (float64 \<times> int)" where
  "calculate_progress_of_row current_progress new_grade =
     (case current_progress of
        None \<Rightarrow> calculate_progress None new_grade
      | Some (None, old_attempts) \<Rightarrow> Inl TypeError
      | Some (Some old_average_grade, old_attempts) \<Rightarrow>
          calculate_progress (Some (old_average_grade, old_attempts)) new_grade)"

subsection \<open>The SQL statements\<close>

text \<open>
  Each statement is named after what it does and quotes its SQL. A statement is
  prepared (\<open>on_table\<close>), its parameters are bound (\<open>bind_ints\<close>), and it runs. The
  foreign keys of \<open>grades\<close> and \<open>user_progress\<close> (to \<open>users(id)\<close> and
  \<open>exercises(id)\<close>) are enforced, as \<open>create_connection\<close> turns
  \<open>PRAGMA foreign_keys\<close> on: an insert of a child row needs both parents, and a
  delete of a parent row that a child row still references is rejected (the default
  action is NO ACTION).
\<close>

definition user_ids :: "database \<Rightarrow> int list" where
  "user_ids d = map u_id (users d)"

definition exercise_ids :: "database \<Rightarrow> int list" where
  "exercise_ids d = map e_id (exercises d)"

definition progress_key :: "progress_row \<Rightarrow> int \<times> int" where
  "progress_key r = (p_user_id r, p_exercise_id r)"

text \<open>\<^verbatim>\<open>INSERT INTO users (name, created_at) VALUES (?, ?)\<close>; \<open>name\<close> is NOT NULL.\<close>

definition insert_user :: "string option \<Rightarrow> string \<Rightarrow> database \<Rightarrow> exn + database" where
  "insert_user name date d =
     on_table ''users''
       (case next_rowid (seq_users d) (user_ids d) of
          Inl e \<Rightarrow> Inl e
        | Inr i \<Rightarrow>
            (case name of
               None \<Rightarrow> Inl (SqliteError (IntegrityError NOT_NULL))
             | Some n \<Rightarrow>
                 Inr (d\<lparr>users := users d @ [\<lparr>u_id = i, u_name = n, u_created_at = date\<rparr>],
                       seq_users := i\<rparr>)))"

text \<open>\<^verbatim>\<open>INSERT INTO exercises (name, description) VALUES (?, ?)\<close>; both are NOT NULL.\<close>

definition insert_exercise :: "string option \<Rightarrow> string option \<Rightarrow> database \<Rightarrow> exn + database" where
  "insert_exercise name description d =
     on_table ''exercises''
       (case next_rowid (seq_exercises d) (exercise_ids d) of
          Inl e \<Rightarrow> Inl e
        | Inr i \<Rightarrow>
            (case (name, description) of
               (Some n, Some ds) \<Rightarrow>
                 Inr (d\<lparr>exercises := exercises d @
                            [\<lparr>e_id = i, e_name = n, e_description = ds\<rparr>],
                       seq_exercises := i\<rparr>)
             | _ \<Rightarrow> Inl (SqliteError (IntegrityError NOT_NULL))))"

text \<open>
  \<^verbatim>\<open>INSERT INTO grades (user_id, exercise_id, grade, time_attempt) VALUES (?, ?, ?, ?)\<close>
  The rowid is taken first, then NOT NULL is checked (a NaN grade is a NULL), and the
  foreign keys when the statement ends.
\<close>

definition insert_grade :: "int \<Rightarrow> int \<Rightarrow> float64 \<Rightarrow> string \<Rightarrow> database \<Rightarrow> exn + database" where
  "insert_grade user_id exercise_id grade date d =
     on_table ''grades'' (bind_ints [user_id, exercise_id]
       (case next_rowid (seq_grades d) (map g_id (grades d)) of
          Inl e \<Rightarrow> Inl e
        | Inr i \<Rightarrow>
            if grade = NaN then Inl (SqliteError (IntegrityError NOT_NULL))
            else if user_id \<in> set (user_ids d) \<and> exercise_id \<in> set (exercise_ids d) then
              Inr (d\<lparr>grades := grades d @
                         [\<lparr>g_id = i, g_user_id = user_id, g_exercise_id = exercise_id,
                           g_grade = grade, g_time_attempt = date\<rparr>],
                    seq_grades := i\<rparr>)
            else Inl (SqliteError (IntegrityError FOREIGN_KEY))))"

text \<open>\<^verbatim>\<open>SELECT * FROM users\<close> and \<^verbatim>\<open>SELECT * FROM exercises\<close>\<close>

definition select_users :: "database \<Rightarrow> exn + user_row list" where
  "select_users d = on_table ''users'' (Inr (users d))"

definition select_exercises :: "database \<Rightarrow> exn + exercise_row list" where
  "select_exercises d = on_table ''exercises'' (Inr (exercises d))"

text \<open>
  \<open>ORDER BY key DESC\<close>. SQLite sorts the rows that the scan produces with a merge sort
  that keeps rows of equal key in the order of the scan; the same is done here, with
  the library's stable ascending sort between two reversals.
\<close>

definition order_by_desc :: "('a \<Rightarrow> 'k::linorder) \<Rightarrow> 'a list \<Rightarrow> 'a list" where
  "order_by_desc key rows = rev (sort_key key (rev rows))"

text \<open>
  \<^verbatim>\<open>
    SELECT exercises.name, grades.grade, grades.time_attempt
    FROM grades JOIN exercises ON grades.exercise_id = exercises.id
    WHERE grades.user_id = ?
    ORDER BY grades.time_attempt DESC
  \<close>
  The join scans \<open>grades\<close> in rowid order and looks the exercise up by its key.
\<close>

definition grades_join :: "int \<Rightarrow> database \<Rightarrow> (string \<times> float64 \<times> string) list" where
  "grades_join user_id d =
     concat (map (\<lambda>g. map (\<lambda>e. (e_name e, g_grade g, g_time_attempt g))
                         (filter (\<lambda>e. e_id e = g_exercise_id g) (exercises d)))
                 (filter (\<lambda>g. g_user_id g = user_id) (grades d)))"

definition select_grades_of_user ::
    "int \<Rightarrow> database \<Rightarrow> exn + (string \<times> float64 \<times> string) list" where
  "select_grades_of_user user_id d =
     on_table ''grades'' (on_table ''exercises'' (bind_ints [user_id]
       (Inr (order_by_desc (\<lambda>(n, g, t). t) (grades_join user_id d)))))"

text \<open>
  \<^verbatim>\<open>SELECT user_id, average_grade, attempt_count, last_attempt FROM user_progress WHERE user_id = ?\<close>
  The primary key (user_id, exercise_id) has an index, which the engine uses for the
  equality on its first column: the matching rows come in the order of exercise_id.
\<close>

definition select_user_progress ::
    "int \<Rightarrow> database \<Rightarrow> exn + (int \<times> float64 option \<times> int \<times> string) list" where
  "select_user_progress user_id d =
     on_table ''user_progress'' (bind_ints [user_id]
       (Inr (map (\<lambda>r. (p_user_id r, p_average_grade r, p_attempt_count r, p_last_attempt r))
               (sort_key p_exercise_id
                  (filter (\<lambda>r. p_user_id r = user_id) (user_progress d))))))"

text \<open>\<^verbatim>\<open>DELETE FROM grades WHERE user_id = ?\<close>\<close>

definition delete_grades_of_user :: "int \<Rightarrow> database \<Rightarrow> exn + database" where
  "delete_grades_of_user user_id d =
     on_table ''grades'' (bind_ints [user_id]
       (Inr (d\<lparr>grades := filter (\<lambda>g. g_user_id g \<noteq> user_id) (grades d)\<rparr>)))"

text \<open>
  \<^verbatim>\<open>DELETE FROM users WHERE id = ?\<close>: rejected when the row exists and a row of
  \<open>grades\<close> or of \<open>user_progress\<close> references it.
\<close>

definition delete_user :: "int \<Rightarrow> database \<Rightarrow> exn + database" where
  "delete_user user_id d =
     on_table ''users'' (bind_ints [user_id]
       (if user_id \<in> set (user_ids d) \<and>
           (user_id \<in> set (map g_user_id (grades d)) \<or>
            user_id \<in> set (map p_user_id (user_progress d)))
        then Inl (SqliteError (IntegrityError FOREIGN_KEY))
        else Inr (d\<lparr>users := filter (\<lambda>u. u_id u \<noteq> user_id) (users d)\<rparr>)))"

text \<open>\<^verbatim>\<open>DELETE FROM grades WHERE exercise_id = ?\<close>\<close>

definition delete_grades_of_exercise :: "int \<Rightarrow> database \<Rightarrow> exn + database" where
  "delete_grades_of_exercise exercise_id d =
     on_table ''grades'' (bind_ints [exercise_id]
       (Inr (d\<lparr>grades := filter (\<lambda>g. g_exercise_id g \<noteq> exercise_id) (grades d)\<rparr>)))"

text \<open>\<^verbatim>\<open>DELETE FROM exercises WHERE id = ?\<close>, with the same foreign-key check.\<close>

definition delete_exercise :: "int \<Rightarrow> database \<Rightarrow> exn + database" where
  "delete_exercise exercise_id d =
     on_table ''exercises'' (bind_ints [exercise_id]
       (if exercise_id \<in> set (exercise_ids d) \<and>
           (exercise_id \<in> set (map g_exercise_id (grades d)) \<or>
            exercise_id \<in> set (map p_exercise_id (user_progress d)))
        then Inl (SqliteError (IntegrityError FOREIGN_KEY))
        else Inr (d\<lparr>exercises := filter (\<lambda>e. e_id e \<noteq> exercise_id) (exercises d)\<rparr>)))"

text \<open>\<^verbatim>\<open>DELETE FROM grades WHERE id = ?\<close>\<close>

definition delete_grade :: "int \<Rightarrow> database \<Rightarrow> exn + database" where
  "delete_grade grade_id d =
     on_table ''grades'' (bind_ints [grade_id]
       (Inr (d\<lparr>grades := filter (\<lambda>g. g_id g \<noteq> grade_id) (grades d)\<rparr>)))"

text \<open>\<^verbatim>\<open>DELETE FROM user_progress WHERE user_id = ?\<close>\<close>

definition delete_user_progress :: "int \<Rightarrow> database \<Rightarrow> exn + database" where
  "delete_user_progress user_id d =
     on_table ''user_progress'' (bind_ints [user_id]
       (Inr (d\<lparr>user_progress := filter (\<lambda>r. p_user_id r \<noteq> user_id) (user_progress d)\<rparr>)))"

text \<open>
  \<^verbatim>\<open>UPDATE users SET name = ? WHERE id = ?\<close>; NOT NULL is checked on each row the
  statement writes.
\<close>

definition update_user_name :: "string option \<Rightarrow> int \<Rightarrow> database \<Rightarrow> exn + database" where
  "update_user_name name user_id d =
     on_table ''users'' (bind_ints [user_id]
       (case name of
          None \<Rightarrow>
            (if user_id \<in> set (user_ids d) then Inl (SqliteError (IntegrityError NOT_NULL))
             else Inr d)
        | Some n \<Rightarrow>
            Inr (d\<lparr>users :=
                     map (\<lambda>u. if u_id u = user_id then u\<lparr>u_name := n\<rparr> else u) (users d)\<rparr>)))"

text \<open>
  \<^verbatim>\<open>UPDATE exercise SET name = ? WHERE id = ?\<close> and
  \<^verbatim>\<open>UPDATE exercise SET description = ? WHERE id = ?\<close>. The statements take the
  table's name as the source writes it; what follows the name check is the update of
  the rows of \<open>exercises\<close>.
\<close>

definition update_exercise_name :: "string \<Rightarrow> string \<Rightarrow> int \<Rightarrow> database \<Rightarrow> exn + database" where
  "update_exercise_name table name exercise_id d =
     on_table table (bind_ints [exercise_id]
       (Inr (d\<lparr>exercises :=
                 map (\<lambda>e. if e_id e = exercise_id then e\<lparr>e_name := name\<rparr> else e)
                   (exercises d)\<rparr>)))"

definition update_exercise_description ::
    "string \<Rightarrow> string \<Rightarrow> int \<Rightarrow> database \<Rightarrow> exn + database" where
  "update_exercise_description table description exercise_id d =
     on_table table (bind_ints [exercise_id]
       (Inr (d\<lparr>exercises :=
                 map (\<lambda>e. if e_id e = exercise_id then e\<lparr>e_description := description\<rparr> else e)
                   (exercises d)\<rparr>)))"

text \<open>\<^verbatim>\<open>UPDATE grades SET grade = ? WHERE id = ?\<close>; \<open>grade\<close> is NOT NULL.\<close>

definition update_grade :: "float64 \<Rightarrow> int \<Rightarrow> database \<Rightarrow> exn + database" where
  "update_grade grade grade_id d =
     on_table ''grades'' (bind_ints [grade_id]
       (if grade = NaN \<and> grade_id \<in> set (map g_id (grades d))
        then Inl (SqliteError (IntegrityError NOT_NULL))
        else Inr (d\<lparr>grades :=
                     map (\<lambda>g. if g_id g = grade_id then g\<lparr>g_grade := grade\<rparr> else g)
                       (grades d)\<rparr>)))"

text \<open>\<^verbatim>\<open>SELECT average_grade, attempt_count FROM user_progress WHERE user_id = ? AND exercise_id = ?\<close>\<close>

definition select_progress :: "int \<Rightarrow> int \<Rightarrow> database \<Rightarrow> exn + (float64 option \<times> int) list" where
  "select_progress user_id exercise_id d =
     on_table ''user_progress'' (bind_ints [user_id, exercise_id]
       (Inr (map (\<lambda>r. (p_average_grade r, p_attempt_count r))
               (filter (\<lambda>r. progress_key r = (user_id, exercise_id)) (user_progress d)))))"

text \<open>
  \<^verbatim>\<open>UPDATE user_progress SET average_grade = ?, attempt_count = ?, last_attempt = ?
       WHERE user_id = ? AND exercise_id = ?\<close>
\<close>

definition update_progress ::
    "float64 \<Rightarrow> int \<Rightarrow> string \<Rightarrow> int \<Rightarrow> int \<Rightarrow> database \<Rightarrow> exn + database" where
  "update_progress new_average new_attempts date user_id exercise_id d =
     on_table ''user_progress'' (bind_ints [new_attempts, user_id, exercise_id]
       (Inr (d\<lparr>user_progress :=
                 map (\<lambda>r. if progress_key r = (user_id, exercise_id)
                           then r\<lparr>p_average_grade := sql_real new_average,
                                  p_attempt_count := new_attempts,
                                  p_last_attempt := date\<rparr>
                           else r)
                   (user_progress d)\<rparr>)))"

text \<open>
  \<^verbatim>\<open>INSERT INTO user_progress (user_id, exercise_id, average_grade, attempt_count, last_attempt)
       VALUES (?, ?, ?, ?, ?)\<close>
  The primary key is checked as the row is written, the foreign keys when the statement
  ends.
\<close>

definition insert_progress ::
    "int \<Rightarrow> int \<Rightarrow> float64 \<Rightarrow> int \<Rightarrow> string \<Rightarrow> database \<Rightarrow> exn + database" where
  "insert_progress user_id exercise_id new_average new_attempts date d =
     on_table ''user_progress'' (bind_ints [user_id, exercise_id, new_attempts]
       (if (user_id, exercise_id) \<in> set (map progress_key (user_progress d)) then
          Inl (SqliteError (IntegrityError PRIMARY_KEY))
        else if user_id \<in> set (user_ids d) \<and> exercise_id \<in> set (exercise_ids d) then
          Inr (d\<lparr>user_progress := user_progress d @
                   [\<lparr>p_user_id = user_id, p_exercise_id = exercise_id,
                     p_average_grade = sql_real new_average, p_attempt_count = new_attempts,
                     p_last_attempt = date\<rparr>]\<rparr>)
        else Inl (SqliteError (IntegrityError FOREIGN_KEY))))"

subsection \<open>The operations\<close>

text \<open>A step of the \<open>try\<close> block that touches no statement: a value, or a raise.\<close>

definition lift :: "exn + 'a \<Rightarrow> conn \<Rightarrow> (exn + 'a) \<times> conn" where
  "lift r c = (r, c)"

text \<open>Python's truth value of an optional string: None and the empty string are falsy.\<close>

definition truthy :: "string option \<Rightarrow> bool" where
  "truthy s = (case s of None \<Rightarrow> False | Some v \<Rightarrow> v \<noteq> [])"

definition add_user :: "conn \<Rightarrow> string \<Rightarrow> string option \<Rightarrow> (exn + unit) \<times> conn" where
  "add_user c date name =
     try_cursor ''Database Error: '' ()
       (bind (execute (insert_user name date)) (\<lambda>_. commit)) c"

definition add_exercise :: "conn \<Rightarrow> string option \<Rightarrow> string option \<Rightarrow> (exn + unit) \<times> conn" where
  "add_exercise c name description =
     try_cursor ''Database Error: '' ()
       (bind (execute (insert_exercise name description)) (\<lambda>_. commit)) c"

text \<open>
  \<open>update_user_progression\<close>: the row of the pair is read, \<open>calculate_progress\<close> gives
  the new pair, \<open>date\<close> is read from the clock, and the row is updated when one was
  fetched (\<open>if current_progress:\<close>, a fetched row is a non-empty tuple) and inserted
  otherwise.
\<close>

definition update_user_progression ::
    "conn \<Rightarrow> string \<Rightarrow> int \<Rightarrow> int \<Rightarrow> float64 \<Rightarrow> (exn + unit) \<times> conn" where
  "update_user_progression c date user_id exercise_id new_grade =
     try_cursor ''Error updating user progress: '' ()
       (bind (query (select_progress user_id exercise_id)) (\<lambda>rows.
          (let current_progress = fetchone rows in
           bind (lift (calculate_progress_of_row current_progress new_grade))
             (\<lambda>(new_average, new_attempts).
           bind (execute
                   (if current_progress \<noteq> None
                    then update_progress new_average new_attempts date user_id exercise_id
                    else insert_progress user_id exercise_id new_average new_attempts date))
             (\<lambda>_. commit))))) c"

text \<open>
  \<open>add_grade\<close> reads the clock (\<open>date\<close>), inserts and commits the grade, then calls
  \<open>update_user_progression\<close>, which reads the clock again (\<open>date2\<close>).
\<close>

definition add_grade ::
    "conn \<Rightarrow> string \<Rightarrow> string \<Rightarrow> int \<Rightarrow> int \<Rightarrow> float64 \<Rightarrow> (exn + unit) \<times> conn" where
  "add_grade c date date2 user_id exercise_id grade =
     try_cursor ''Database Error: '' ()
       (bind (execute (insert_grade user_id exercise_id grade date)) (\<lambda>_.
        bind commit (\<lambda>_ c'. update_user_progression c' date2 user_id exercise_id grade))) c"

definition get_users :: "conn \<Rightarrow> (exn + user_row list) \<times> conn" where
  "get_users c = try_cursor ''Error getting the users: '' [] (query select_users) c"

definition get_exercises :: "conn \<Rightarrow> (exn + exercise_row list) \<times> conn" where
  "get_exercises c = try_cursor ''Error getting the exercises: '' [] (query select_exercises) c"

definition get_grades_of_user ::
    "conn \<Rightarrow> int \<Rightarrow> (exn + (string \<times> float64 \<times> string) list) \<times> conn" where
  "get_grades_of_user c user_id =
     try_cursor ''Error getting the grades of the user: '' []
       (query (select_grades_of_user user_id)) c"

text \<open>
  What \<open>get_user_progress\<close> returns: the row that \<open>fetchone\<close> gives (its average is
  None when the column is NULL), None when the query has no row, and the empty tuple
  from the handler.
\<close>

datatype fetched = Row "int \<times> float64 option \<times> int \<times> string" | PyNone | EmptyTuple

definition get_user_progress :: "conn \<Rightarrow> int \<Rightarrow> (exn + fetched) \<times> conn" where
  "get_user_progress c user_id =
     try_cursor ''Error getting the user progress: '' EmptyTuple
       (bind (query (select_user_progress user_id)) (\<lambda>rows.
          lift (Inr (case fetchone rows of None \<Rightarrow> PyNone | Some r \<Rightarrow> Row r)))) c"

definition remove_user :: "conn \<Rightarrow> int \<Rightarrow> (exn + unit) \<times> conn" where
  "remove_user c user_id =
     try_cursor ''Error removing user: '' ()
       (bind (execute (delete_grades_of_user user_id)) (\<lambda>_.
        bind (execute (delete_user user_id)) (\<lambda>_. commit))) c"

definition remove_exercise :: "conn \<Rightarrow> int \<Rightarrow> (exn + unit) \<times> conn" where
  "remove_exercise c exercise_id =
     try_cursor ''Error removing exercise: '' ()
       (bind (execute (delete_grades_of_exercise exercise_id)) (\<lambda>_.
        bind (execute (delete_exercise exercise_id)) (\<lambda>_. commit))) c"

definition remove_grade :: "conn \<Rightarrow> int \<Rightarrow> (exn + unit) \<times> conn" where
  "remove_grade c grade_id =
     try_cursor ''Error removing grade: '' ()
       (bind (execute (delete_grade grade_id)) (\<lambda>_. commit)) c"

definition remove_user_progress :: "conn \<Rightarrow> int \<Rightarrow> (exn + unit) \<times> conn" where
  "remove_user_progress c user_id =
     try_cursor ''Error removing user progress: '' ()
       (bind (execute (delete_user_progress user_id)) (\<lambda>_. commit)) c"

definition update_user :: "conn \<Rightarrow> string option \<Rightarrow> int \<Rightarrow> (exn + unit) \<times> conn" where
  "update_user c name user_id =
     try_cursor ''Error updating user: '' ()
       (bind (execute (update_user_name name user_id)) (\<lambda>_. commit)) c"

text \<open>
  \<^verbatim>\<open>
    if name:
        cursor.execute("UPDATE exercise SET name = ? WHERE id = ?", (name, exercise_id))
    if description:
        cursor.execute("UPDATE exercise SET description = ? WHERE id = ?", (description, exercise_id))
    connection.commit()
  \<close>
\<close>

definition update_exercise ::
    "conn \<Rightarrow> int \<Rightarrow> string option \<Rightarrow> string option \<Rightarrow> (exn + unit) \<times> conn" where
  "update_exercise c exercise_id name description =
     try_cursor ''Error updating exercise: '' ()
       (bind (if truthy name
              then execute (update_exercise_name ''exercise'' (the name) exercise_id)
              else lift (Inr ())) (\<lambda>_.
        bind (if truthy description
              then execute (update_exercise_description ''exercise'' (the description) exercise_id)
              else lift (Inr ())) (\<lambda>_. commit))) c"

definition update_grades :: "conn \<Rightarrow> int \<Rightarrow> float64 \<Rightarrow> (exn + unit) \<times> conn" where
  "update_grades c grade_id grade =
     try_cursor ''Error updating grade: '' ()
       (bind (execute (update_grade grade grade_id)) (\<lambda>_. commit)) c"

subsection \<open>Sequences of operations\<close>

datatype operation =
    AddUser string "string option"
  | AddExercise "string option" "string option"
  | AddGrade string string int int float64
  | GetUsers
  | GetExercises
  | GetGradesOfUser int
  | GetUserProgress int
  | RemoveUser int
  | RemoveExercise int
  | RemoveGrade int
  | RemoveUserProgress int
  | UpdateUser "string option" int
  | UpdateExercise int "string option" "string option"
  | UpdateGrades int float64
  | UpdateUserProgression string int int float64

text \<open>The connection after an operation, whatever it returned or raised.\<close>

fun exec :: "conn \<Rightarrow> operation \<Rightarrow> conn" where
  "exec c (AddUser date name) = snd (add_user c date name)"
| "exec c (AddExercise name description) = snd (add_exercise c name description)"
| "exec c (AddGrade date date2 user_id exercise_id grade) =
     snd (add_grade c date date2 user_id exercise_id grade)"
| "exec c GetUsers = snd (get_users c)"
| "exec c GetExercises = snd (get_exercises c)"
| "exec c (GetGradesOfUser user_id) = snd (get_grades_of_user c user_id)"
| "exec c (GetUserProgress user_id) = snd (get_user_progress c user_id)"
| "exec c (RemoveUser user_id) = snd (remove_user c user_id)"
| "exec c (RemoveExercise exercise_id) = snd (remove_exercise c exercise_id)"
| "exec c (RemoveGrade grade_id) = snd (remove_grade c grade_id)"
| "exec c (RemoveUserProgress user_id) = snd (remove_user_progress c user_id)"
| "exec c (UpdateUser name user_id) = snd (update_user c name user_id)"
| "exec c (UpdateExercise exercise_id name description) =
     snd (update_exercise c exercise_id name description)"
| "exec c (UpdateGrades grade_id grade) = snd (update_grades c grade_id grade)"
| "exec c (UpdateUserProgression date user_id exercise_id new_grade) =
     snd (update_user_progression c date user_id exercise_id new_grade)"

text \<open>The states that sequences of operations reach from the empty store.\<close>

inductive reachable :: "conn \<Rightarrow> bool" where
  reachable_initial: "reachable initial"
| reachable_exec: "reachable c \<Longrightarrow> reachable (exec c op)"

text \<open>
  \<open>add_grade\<close> called once for each grade of a list, with its two clock readings; an
  exception that leaves a call ends the sequence.
\<close>

fun add_grades :: "conn \<Rightarrow> int \<Rightarrow> int \<Rightarrow> (float64 \<times> string \<times> string) list \<Rightarrow> exn + conn" where
  "add_grades c user_id exercise_id [] = Inr c"
| "add_grades c user_id exercise_id ((grade, date, date2) # rest) =
     (case add_grade c date date2 user_id exercise_id grade of
        (Inl x, c') \<Rightarrow> Inl x
      | (Inr _, c') \<Rightarrow> add_grades c' user_id exercise_id rest)"

text \<open>The operations that reach the INSERT INTO user_progress.\<close>

definition inserts_progress :: "operation \<Rightarrow> bool" where
  "inserts_progress op =
     (case op of
        AddGrade _ _ _ _ _ \<Rightarrow> True
      | UpdateUserProgression _ _ _ _ \<Rightarrow> True
      | _ \<Rightarrow> False)"

subsection \<open>The progress update as a recurrence\<close>

text \<open>
  \<open>calculate_progress\<close> applied to one grade after another, from a prior pair or from
  None: the pair that a sequence of attempts leads to.
\<close>

fun running_progress :: "(float64 \<times> int) option \<Rightarrow> float64 list \<Rightarrow> exn + (float64 \<times> int) option" where
  "running_progress p [] = Inr p"
| "running_progress p (g # gs) =
     (case calculate_progress p g of
        Inl e \<Rightarrow> Inl e
      | Inr q \<Rightarrow> running_progress (Some q) gs)"

text \<open>
  The same recurrence as the specification writes it, \<open>count' = count + 1\<close> and
  \<open>average' = (average * count + newGrade) / count'\<close>, in exact arithmetic.
\<close>

definition exact_step :: "real \<times> int \<Rightarrow> real \<Rightarrow> real \<times> int" where
  "exact_step p new_grade =
     (case p of (average, attempts) \<Rightarrow>
        ((average * of_int attempts + new_grade) / of_int (attempts + 1), attempts + 1))"

definition exact_progress :: "real list \<Rightarrow> real \<times> int" where
  "exact_progress gs = foldl exact_step (0, 0) gs"

text \<open>A grade that is a finite double, and the real it stands for.\<close>

definition finite64 :: "float64 \<Rightarrow> bool" where
  "finite64 g = (case g of Fin r \<Rightarrow> round64 r = Fin r | _ \<Rightarrow> False)"

definition value_of :: "float64 \<Rightarrow> real" where
  "value_of g = (case g of Fin r \<Rightarrow> r | _ \<Rightarrow> 0)"

subsection \<open>Abbreviations used in the proofs\<close>

text \<open>The (average, count) pairs stored for a pair: the rows \<open>select_progress\<close> reads.\<close>

definition pair_rows :: "database \<Rightarrow> int \<Rightarrow> int \<Rightarrow> (float64 option \<times> int) list" where
  "pair_rows d u e =
     map (\<lambda>r. (p_average_grade r, p_attempt_count r))
       (filter (\<lambda>r. progress_key r = (u, e)) (user_progress d))"

text \<open>The tables after the INSERT of \<open>insert_grade\<close> has succeeded.\<close>

definition with_grade :: "database \<Rightarrow> int \<Rightarrow> int \<Rightarrow> float64 \<Rightarrow> string \<Rightarrow> database" where
  "with_grade d u e g date =
     d\<lparr>grades := grades d @
          [\<lparr>g_id = last_rowid (seq_grades d) (map g_id (grades d)) + 1,
            g_user_id = u, g_exercise_id = e, g_grade = g, g_time_attempt = date\<rparr>],
       seq_grades := last_rowid (seq_grades d) (map g_id (grades d)) + 1\<rparr>"

text \<open>The tables after the progress row of a pair has been written.\<close>

definition with_progress ::
    "database \<Rightarrow> int \<Rightarrow> int \<Rightarrow> float64 \<Rightarrow> int \<Rightarrow> string \<Rightarrow> database" where
  "with_progress d u e a n date =
     d\<lparr>user_progress :=
         (if (u, e) \<in> set (map progress_key (user_progress d)) then
            map (\<lambda>r. if progress_key r = (u, e)
                      then r\<lparr>p_average_grade := sql_real a, p_attempt_count := n,
                             p_last_attempt := date\<rparr>
                      else r)
              (user_progress d)
          else user_progress d @
            [\<lparr>p_user_id = u, p_exercise_id = e, p_average_grade = sql_real a,
              p_attempt_count = n, p_last_attempt = date\<rparr>])\<rparr>"

text \<open>The table \<open>grades\<close> can take \<open>k\<close> more rows before its rowids are used up.\<close>

definition grades_room :: "database \<Rightarrow> nat \<Rightarrow> bool" where
  "grades_room d k =
     (0 \<le> seq_grades d \<and> last_rowid (seq_grades d) (map g_id (grades d)) + int k < 2 ^ 63)"

subsection \<open>Example stores\<close>

text \<open>
  The store of the module's demonstration block: user John, exercise Test, then the
  grades 59, 54, 87 and 45 for the pair (1, 1); the second and third grade fall in the
  same second. \<open>demo_two\<close> is a second history, in which John is graded on exercise 2
  before exercise 1. \<open>demo_class\<close> has two users and two exercises.
  \<open>rounding_grades\<close> are eight grades whose mean is 58.
\<close>

definition demo_store :: conn where
  "demo_store =
     exec (exec initial (AddUser ''2025-03-01 10:00:00'' (Some ''John'')))
       (AddExercise (Some ''Test'') (Some ''Testing insertion''))"

definition demo_grades :: "(float64 \<times> string \<times> string) list" where
  "demo_grades =
     [(Fin 59, ''2025-03-01 10:00:01'', ''2025-03-01 10:00:01''),
      (Fin 54, ''2025-03-01 10:00:02'', ''2025-03-01 10:00:02''),
      (Fin 87, ''2025-03-01 10:00:02'', ''2025-03-01 10:00:02''),
      (Fin 45, ''2025-03-01 10:00:03'', ''2025-03-01 10:00:03'')]"

definition demo_graded :: conn where
  "demo_graded =
     exec (exec (exec (exec demo_store
       (AddGrade ''2025-03-01 10:00:01'' ''2025-03-01 10:00:01'' 1 1 (Fin 59)))
       (AddGrade ''2025-03-01 10:00:02'' ''2025-03-01 10:00:02'' 1 1 (Fin 54)))
       (AddGrade ''2025-03-01 10:00:02'' ''2025-03-01 10:00:02'' 1 1 (Fin 87)))
       (AddGrade ''2025-03-01 10:00:03'' ''2025-03-01 10:00:03'' 1 1 (Fin 45))"


definition demo_class :: conn where
  "demo_class =
     exec (exec (exec (exec (exec (exec (exec demo_store
       (AddUser ''2025-03-03 08:00:00'' (Some ''Ann'')))
       (AddExercise (Some ''Scales'') (Some ''Major scales'')))
       (AddGrade ''2025-03-03 09:00:00'' ''2025-03-03 09:00:00'' 1 2 (Fin 70)))
       (AddGrade ''2025-03-03 09:00:00'' ''2025-03-03 09:00:00'' 2 1 (Fin 80)))
       (AddGrade ''2025-03-03 09:00:00'' ''2025-03-03 09:00:00'' 1 1 (Fin 60)))
       (AddGrade ''2025-03-03 09:30:00'' ''2025-03-03 09:30:00'' 2 2 (Fin 90)))
       (AddGrade ''2025-03-03 08:30:00'' ''2025-03-03 08:30:00'' 1 2 (Fin 50))"

definition demo_closed :: conn where
  "demo_closed = demo_graded\<lparr>closed := True\<rparr>"

definition rounding_grades :: "float64 list" where
  "rounding_grades = [Fin 56, Fin 73, Fin 45, Fin 75, Fin 88, Fin 49, Fin 64, Fin 14]"

definition rounding_attempts :: "(float64 \<times> string \<times> string) list" where
  "rounding_attempts =
     map (\<lambda>g. (g, ''2025-03-04 10:00:00'', ''2025-03-04 10:00:00'')) rounding_grades"

section \<open>Properties\<close>

lemmas frame_defs = try_cursor_def bind_def execute_def query_def commit_def lift_def
  print_err_def on_table_def table_names_def bind_ints_def

lemmas op_defs = add_user_def add_exercise_def add_grade_def get_users_def get_exercises_def
  get_grades_of_user_def get_user_progress_def remove_user_def remove_exercise_def
  remove_grade_def remove_user_progress_def update_user_def update_exercise_def
  update_grades_def update_user_progression_def

lemmas stmt_defs = insert_user_def insert_exercise_def insert_grade_def select_users_def
  select_exercises_def select_grades_of_user_def select_user_progress_def
  delete_grades_of_user_def delete_user_def delete_grades_of_exercise_def delete_exercise_def
  delete_grade_def delete_user_progress_def update_user_name_def update_exercise_name_def
  update_exercise_description_def update_grade_def select_progress_def update_progress_def
  insert_progress_def

subsection \<open>Rounding to a double\<close>

lemma pow2_powr: "2 powr (of_int k) = (2::real) powi k"
  by (simp add: powr_real_of_int power_int_def inverse_eq_divide power_one_over)

lemma expo_bounds:
  assumes "x \<noteq> 0"
  shows "2 powi (expo x) \<le> \<bar>x\<bar>" "\<bar>x\<bar> < 2 powi (expo x + 1)"
proof -
  have pos: "0 < \<bar>x\<bar>" using assms by simp
  have "\<lfloor>log 2 \<bar>x\<bar>\<rfloor> = expo x" by (simp add: expo_def)
  then have "2 powr (of_int (expo x)) \<le> \<bar>x\<bar> \<and> \<bar>x\<bar> < 2 powr (of_int (expo x) + 1)"
    using floor_log_eq_powr_iff [OF pos, of 2 "expo x"] by simp
  moreover have "of_int (expo x) + (1::real) = of_int (expo x + 1)" by simp
  ultimately show "2 powi (expo x) \<le> \<bar>x\<bar>" "\<bar>x\<bar> < 2 powi (expo x + 1)"
    using pow2_powr by metis+
qed

lemma expo_eqI:
  assumes "2 powi k \<le> \<bar>x\<bar>" "\<bar>x\<bar> < 2 powi (k + 1)"
  shows "expo x = k"
proof -
  have pos: "0 < \<bar>x\<bar>" using assms(1) by (smt (verit) zero_less_power_int)
  have "2 powr (of_int k) \<le> \<bar>x\<bar> \<and> \<bar>x\<bar> < 2 powr (of_int k + 1)"
    using assms pow2_powr [of k] pow2_powr [of "k + 1"] by simp
  then show ?thesis
    unfolding expo_def using floor_log_eq_powr_iff [OF pos, of 2 k] by simp
qed

lemma half_even_of_int [simp]: "half_even (of_int m) = m"
  by (simp add: half_even_def)

lemma half_even_bounds: "\<lfloor>q\<rfloor> \<le> half_even q" "half_even q \<le> \<lceil>q\<rceil>"
proof -
  show "\<lfloor>q\<rfloor> \<le> half_even q" by (simp add: half_even_def Let_def)
  have "q \<noteq> of_int \<lfloor>q\<rfloor> \<Longrightarrow> \<lceil>q\<rceil> = \<lfloor>q\<rfloor> + 1"
    by (metis ceiling_altdef of_int_floor_cancel)
  moreover have "q = of_int \<lfloor>q\<rfloor> \<Longrightarrow> half_even q = \<lfloor>q\<rfloor>"
    by (metis half_even_of_int)
  moreover have "half_even q \<le> \<lfloor>q\<rfloor> + 1" by (simp add: half_even_def Let_def)
  ultimately show "half_even q \<le> \<lceil>q\<rceil>"
    by (metis ceiling_of_int order_refl)
qed

lemma pow2_less_iff: "(2::real) powi a < 2 powi b \<longleftrightarrow> a < b"
proof
  assume "a < b"
  then show "(2::real) powi a < 2 powi b" by (rule power_int_strict_increasing) simp
next
  assume lt: "(2::real) powi a < 2 powi b"
  show "a < b"
  proof (rule ccontr)
    assume "\<not> a < b"
    then have "b \<le> a" by simp
    then have "(2::real) powi b \<le> 2 powi a" by (rule power_int_increasing) simp
    with lt show False by simp
  qed
qed

lemma pow2_le_iff: "(2::real) powi a \<le> 2 powi b \<longleftrightarrow> a \<le> b"
  using pow2_less_iff [of b a] by (simp add: not_less [symmetric])

lemma pow2_div: "(2::real) powi a / 2 powi b = 2 powi (a - b)"
  by (simp add: power_int_diff)

lemma pow2_nonneg_int: "0 \<le> j \<Longrightarrow> (2::real) powi j = of_int (2 ^ nat j)"
  by (simp add: power_int_def)

text \<open>A real on the grid of the doubles is left as it is.\<close>

lemma round64_exact:
  assumes x: "x = of_int m * 2 powi k" and m: "\<bar>m\<bar> \<le> 2 ^ 53" and k: "- 1074 \<le> k"
    and fin: "\<bar>x\<bar> < 2 ^ 1024"
  shows "round64 x = Fin x"
proof (cases "x = 0")
  case True
  then show ?thesis by (simp add: round64_def)
next
  case False
  define e where "e = max (expo x) (- 1022)"
  define u :: real where "u = 2 powi (e - 52)"
  have upos: "0 < u" by (simp add: u_def)
  have absx: "\<bar>x\<bar> = of_int \<bar>m\<bar> * 2 powi k"
    by (simp add: x abs_mult)
  have "\<bar>x\<bar> \<le> 2 ^ 53 * 2 powi k"
  proof -
    have "(of_int \<bar>m\<bar> :: real) \<le> of_int (2 ^ 53)" using m by (simp only: of_int_le_iff)
    then show ?thesis unfolding absx by (simp add: mult_right_mono)
  qed
  also have "\<dots> = 2 powi (k + 53)" by (simp add: power_int_add)
  finally have xle: "\<bar>x\<bar> \<le> 2 powi (k + 53)" .
  have "2 powi (expo x) \<le> \<bar>x\<bar>" using expo_bounds(1) [OF False] .
  with xle have "(2::real) powi (expo x) \<le> 2 powi (k + 53)" by simp
  then have e0: "expo x \<le> k + 53" by (simp add: pow2_le_iff)
  then have e53: "e \<le> k + 53" using k by (simp add: e_def)
  have "\<exists>j. x / u = of_int j"
  proof (cases "e \<le> k + 52")
    case True
    have "x / u = of_int m * (2 powi k / 2 powi (e - 52))" by (simp add: x u_def)
    also have "\<dots> = of_int m * 2 powi (k - e + 52)"
      by (simp add: pow2_div algebra_simps)
    also have "\<dots> = of_int m * of_int (2 ^ nat (k - e + 52))"
      using True by (subst pow2_nonneg_int) simp_all
    also have "\<dots> = of_int (m * 2 ^ nat (k - e + 52))" by simp
    finally show ?thesis by blast
  next
    case False
    with e53 have ee: "e = k + 53" by simp
    then have "expo x = k + 53" using k by (simp add: e_def max_def split: if_splits)
    then have "2 powi (k + 53) \<le> \<bar>x\<bar>" using expo_bounds(1) [OF \<open>x \<noteq> 0\<close>] by simp
    then have "2 ^ 53 * 2 powi k \<le> of_int \<bar>m\<bar> * (2::real) powi k"
      by (simp add: absx power_int_add)
    then have "(2::real) ^ 53 \<le> of_int \<bar>m\<bar>" by simp
    then have "(of_int (2 ^ 53) :: real) \<le> of_int \<bar>m\<bar>" by simp
    then have "2 ^ 53 \<le> \<bar>m\<bar>" by (simp only: of_int_le_iff)
    with m have mm: "\<bar>m\<bar> = 2 ^ 53" by simp
    have "x / u = of_int m * (2 powi k / 2 powi (e - 52))" by (simp add: x u_def)
    also have "\<dots> = of_int m * 2 powi (- 1)"
      by (simp add: pow2_div ee)
    also have "\<dots> = of_int m / 2" by simp
    finally have xu: "x / u = of_int m / 2" .
    from mm have "m = 2 ^ 53 \<or> m = - (2 ^ 53)" by (simp add: abs_if split: if_splits)
    then show ?thesis
    proof
      assume "m = 2 ^ 53"
      then have "x / u = of_int (2 ^ 52)" by (simp add: xu)
      then show ?thesis by blast
    next
      assume "m = - (2 ^ 53)"
      then have "x / u = of_int (- (2 ^ 52))" by (simp add: xu)
      then show ?thesis by blast
    qed
  qed
  then obtain j where j: "x / u = of_int j" by blast
  then have "of_int (half_even (x / u)) * u = x"
    using upos by (simp add: field_simps)
  then show ?thesis
    using False fin by (simp add: round64_def Let_def e_def [symmetric] u_def [symmetric])
qed

text \<open>The rounded quotient by the spacing has at most 53 bits.\<close>

lemma mantissa_bound:
  assumes "x \<noteq> 0"
  shows "\<bar>half_even (x / 2 powi (max (expo x) (- 1022) - 52))\<bar> \<le> 2 ^ 53"
proof -
  define e where "e = max (expo x) (- 1022)"
  define u :: real where "u = 2 powi (e - 52)"
  define m where "m = half_even (x / u)"
  have upos: "0 < u" by (simp add: u_def)
  have "\<bar>x\<bar> < 2 powi (expo x + 1)" using expo_bounds(2) [OF assms] .
  also have "\<dots> \<le> 2 powi (e + 1)" by (simp add: pow2_le_iff e_def)
  finally have "\<bar>x\<bar> / u < 2 powi (e + 1) / u" using upos by (simp add: divide_strict_right_mono)
  also have "2 powi (e + 1) / u = 2 ^ 53" by (simp add: u_def pow2_div)
  finally have q: "\<bar>x / u\<bar> < 2 ^ 53" using upos by simp
  have q2: "x / u < 2 ^ 53" "- (x / u) < 2 ^ 53"
    using q unfolding abs_less_iff by blast+
  have "x / u < of_int (2 ^ 53)" using q2(1) by simp
  then have "\<lceil>x / u\<rceil> \<le> 2 ^ 53" by (simp only: ceiling_le_iff)
  then have up: "m \<le> 2 ^ 53" using half_even_bounds(2) [of "x / u"] unfolding m_def by linarith
  have "of_int (- (2 ^ 53)) < x / u" using q2(2) by simp
  then have "- (2 ^ 53) \<le> \<lfloor>x / u\<rfloor>" by (simp only: le_floor_iff)
  then have lo: "- (2 ^ 53) \<le> m" using half_even_bounds(1) [of "x / u"] unfolding m_def by linarith
  have "\<bar>m\<bar> \<le> 2 ^ 53" using up lo by simp
  then show ?thesis by (simp add: m_def u_def e_def)
qed

text \<open>What rounding returns is on the grid.\<close>

lemma round64_representable:
  assumes "round64 x = Fin y"
  shows "\<exists>m k. y = of_int m * 2 powi k \<and> \<bar>m\<bar> \<le> 2 ^ 53 \<and> - 1074 \<le> k \<and> \<bar>y\<bar> < 2 ^ 1024"
proof (cases "x = 0")
  case True
  then have "y = 0" using assms by (simp add: round64_def)
  then have "y = of_int 0 * 2 powi 0 \<and> \<bar>0::int\<bar> \<le> 2 ^ 53 \<and> - 1074 \<le> (0::int) \<and> \<bar>y\<bar> < 2 ^ 1024"
    by simp
  then show ?thesis by blast
next
  case False
  define e where "e = max (expo x) (- 1022)"
  define u :: real where "u = 2 powi (e - 52)"
  define m where "m = half_even (x / u)"
  have y: "y = of_int m * u" and fin: "\<bar>y\<bar> < 2 ^ 1024"
    using assms False
    by (auto simp: round64_def Let_def e_def [symmetric] u_def [symmetric] m_def [symmetric]
        split: if_splits)
  have "\<bar>m\<bar> \<le> 2 ^ 53" using mantissa_bound [OF False] by (simp add: m_def u_def e_def)
  moreover have "- 1074 \<le> e - 52" by (simp add: e_def)
  ultimately show ?thesis using y fin unfolding u_def by blast
qed

lemma round64_idem: "round64 x = Fin y \<Longrightarrow> round64 y = Fin y"
  using round64_representable [of x y] round64_exact by blast

lemma round64_not_NaN [simp]: "round64 x \<noteq> NaN"
  by (simp add: round64_def Let_def)

text \<open>A real from 1 on is rounded to a double from 1 on, or to plus infinity.\<close>

lemma round64_ge_one:
  assumes "1 \<le> x"
  shows "round64 x = PInf \<or> (\<exists>y. round64 x = Fin y \<and> 1 \<le> y)"
proof -
  have x0: "x \<noteq> 0" "0 < x" using assms by simp_all
  define e where "e = max (expo x) (- 1022)"
  define u :: real where "u = 2 powi (e - 52)"
  define m where "m = half_even (x / u)"
  have upos: "0 < u" by (simp add: u_def)
  have "(2::real) powi 0 \<le> \<bar>x\<bar>" using assms by simp
  also have "\<bar>x\<bar> < 2 powi (expo x + 1)" using expo_bounds(2) [OF x0(1)] .
  finally have "(2::real) powi 0 < 2 powi (expo x + 1)" .
  then have "0 < expo x + 1" by (simp only: pow2_less_iff)
  then have "0 \<le> expo x" by simp
  then have e: "e = expo x" by (simp add: e_def)
  have "2 powi e \<le> x" using expo_bounds(1) [OF x0(1)] x0(2) by (simp add: e)
  then have "2 powi e / u \<le> x / u" using upos by (simp add: divide_right_mono)
  moreover have "2 powi e / u = of_int (2 ^ 52)" by (simp add: u_def pow2_div)
  ultimately have "of_int (2 ^ 52) \<le> x / u" by simp
  then have "2 ^ 52 \<le> \<lfloor>x / u\<rfloor>" by (simp only: le_floor_iff)
  then have "2 ^ 52 \<le> m" using half_even_bounds(1) [of "x / u"] unfolding m_def by linarith
  then have "(of_int (2 ^ 52) :: real) \<le> of_int m" by (simp only: of_int_le_iff)
  then have "of_int (2 ^ 52) * u \<le> of_int m * u" using upos by (simp add: mult_right_mono)
  moreover have "of_int (2 ^ 52) * u = 2 powi e" by (simp add: u_def power_int_diff)
  moreover have "(1::real) \<le> 2 powi e" using \<open>0 \<le> expo x\<close> e by simp
  ultimately have y1: "1 \<le> of_int m * u" by linarith
  show ?thesis
    using x0 y1
    by (simp add: round64_def Let_def e_def [symmetric] u_def [symmetric] m_def [symmetric])
qed

lemma round64_ge_one_fin:
  assumes "1 \<le> x" "x < 2 ^ 1023"
  shows "\<exists>y. round64 x = Fin y \<and> 1 \<le> y"
proof -
  have x0: "x \<noteq> 0" "0 < x" using assms by simp_all
  define e where "e = max (expo x) (- 1022)"
  define u :: real where "u = 2 powi (e - 52)"
  define m where "m = half_even (x / u)"
  have upos: "0 < u" by (simp add: u_def)
  have "2 powi (expo x) \<le> \<bar>x\<bar>" using expo_bounds(1) [OF x0(1)] .
  also have "\<bar>x\<bar> < 2 powi 1023" using assms by simp
  finally have "expo x < 1023" by (simp only: pow2_less_iff)
  then have e: "e \<le> 1022" by (simp add: e_def)
  have "\<bar>m\<bar> \<le> 2 ^ 53" using mantissa_bound [OF x0(1)] by (simp add: m_def u_def e_def)
  then have "m \<le> 2 ^ 53" by simp
  then have "(of_int m :: real) \<le> of_int (2 ^ 53)" by (simp only: of_int_le_iff)
  then have "of_int m * u \<le> of_int (2 ^ 53) * u" using upos by (simp add: mult_right_mono)
  also have "of_int (2 ^ 53) * u = 2 powi (e + 1)" by (simp add: u_def power_int_diff power_int_add)
  also have "\<dots> \<le> 2 powi 1023"
  proof -
    have "e + 1 \<le> 1023" using e by simp
    then show ?thesis by (simp only: pow2_le_iff)
  qed
  also have "\<dots> < 2 ^ 1024" by simp
  finally have up: "of_int m * u < 2 ^ 1024" .
  from round64_ge_one [OF assms(1)] show ?thesis
  proof
    assume "round64 x = PInf"
    then have "2 ^ 1024 \<le> \<bar>of_int m * u\<bar>"
      using x0
      by (simp add: round64_def Let_def e_def [symmetric] u_def [symmetric] m_def [symmetric]
          split: if_splits)
    moreover have "0 \<le> of_int m * u \<or> of_int m * u < 0" by linarith
    ultimately have "of_int m * u < 0" using up by linarith
    then have "m < 0" using upos by (simp add: mult_less_0_iff)
    moreover have "\<lfloor>x / u\<rfloor> \<le> m" using half_even_bounds(1) [of "x / u"] by (simp add: m_def)
    moreover have "0 \<le> \<lfloor>x / u\<rfloor>" using x0(2) upos by simp
    ultimately show ?thesis by simp
  qed
qed

text \<open>From \<open>2 ^ 1024\<close> on, rounding gives infinity.\<close>

lemma round64_huge:
  assumes "2 ^ 1024 \<le> x"
  shows "round64 x = PInf"
proof -
  have "(0::real) < 2 ^ 1024" by simp
  then have x0: "0 < x" "x \<noteq> 0" using assms by linarith+
  define e where "e = max (expo x) (- 1022)"
  define u :: real where "u = 2 powi (e - 52)"
  define m where "m = half_even (x / u)"
  have upos: "0 < u" by (simp add: u_def)
  have "(2::real) powi 1024 \<le> \<bar>x\<bar>" using assms x0 by simp
  also have "\<bar>x\<bar> < 2 powi (expo x + 1)" using expo_bounds(2) [OF x0(2)] .
  finally have "1024 < expo x + 1" by (simp only: pow2_less_iff)
  then have e: "1024 \<le> e" "e = expo x" by (simp_all add: e_def)
  have "2 powi e \<le> x" using expo_bounds(1) [OF x0(2)] x0(1) by (simp add: e(2))
  then have "2 powi e / u \<le> x / u" using upos by (simp add: divide_right_mono)
  moreover have "2 powi e / u = of_int (2 ^ 52)"
    using pow2_div [of e "e - 52"] by (simp add: u_def)
  ultimately have "of_int (2 ^ 52) \<le> x / u" by simp
  then have "2 ^ 52 \<le> \<lfloor>x / u\<rfloor>" by (simp only: le_floor_iff)
  then have m: "2 ^ 52 \<le> m" using half_even_bounds(1) [of "x / u"] unfolding m_def by linarith
  then have "(of_int (2 ^ 52) :: real) \<le> of_int m" by (simp only: of_int_le_iff)
  then have "of_int (2 ^ 52) * u \<le> of_int m * u" using upos by (simp add: mult_right_mono)
  moreover have "of_int (2 ^ 52) * u = 2 powi e"
    by (simp add: u_def power_int_diff)
  moreover have "(2::real) powi 1024 \<le> 2 powi e" using e(1) by (simp only: pow2_le_iff)
  ultimately have "2 powi 1024 \<le> of_int m * u" by linarith
  then have "2 ^ 1024 \<le> \<bar>of_int m * u\<bar>" by simp
  then show ?thesis
    using x0
    by (simp add: round64_def Let_def e_def [symmetric] u_def [symmetric] m_def [symmetric])
qed

lemma float_of_int_huge:
  assumes "2 ^ 1024 \<le> n"
  shows "float_of_int n = Inl OverflowError"
proof -
  have "(of_int (2 ^ 1024) :: real) \<le> of_int n" using assms by (simp only: of_int_le_iff)
  then have "(2::real) ^ 1024 \<le> of_int n" by simp
  then show ?thesis by (simp add: float_of_int_def round64_huge)
qed

lemma float_of_int_fin:
  assumes "1 \<le> n" "n < 2 ^ 1023"
  shows "\<exists>y. float_of_int n = Inr (Fin y) \<and> 1 \<le> y"
proof -
  have "(of_int n :: real) < of_int (2 ^ 1023)" using assms(2) by (simp only: of_int_less_iff)
  then have "(of_int n :: real) < 2 ^ 1023" by simp
  moreover have "(1::real) \<le> of_int n" using assms(1) by simp
  ultimately obtain y where "round64 (of_int n) = Fin y" "1 \<le> y"
    using round64_ge_one_fin by blast
  then show ?thesis by (simp add: float_of_int_def)
qed

lemma float_of_int_pos:
  assumes "1 \<le> n"
  shows "float_of_int n = Inl OverflowError \<or> (\<exists>y. float_of_int n = Inr (Fin y) \<and> 1 \<le> y)"
proof -
  have "(1::real) \<le> of_int n" using assms by simp
  from round64_ge_one [OF this] show ?thesis by (auto simp: float_of_int_def)
qed

lemma round64_of_int:
  assumes "\<bar>n\<bar> \<le> 2 ^ 53"
  shows "round64 (of_int n) = Fin (of_int n)"
proof -
  have "(of_int \<bar>n\<bar> :: real) \<le> of_int (2 ^ 53)" using assms by (simp only: of_int_le_iff)
  then have "\<bar>of_int n :: real\<bar> \<le> 2 ^ 53" by simp
  also have "(2::real) ^ 53 < 2 ^ 1024" by simp
  finally have "\<bar>of_int n :: real\<bar> < 2 ^ 1024" .
  with round64_exact [of "of_int n" n 0] assms show ?thesis by simp
qed

lemma float_of_int_small: "\<bar>n\<bar> \<le> 2 ^ 53 \<Longrightarrow> float_of_int n = Inr (Fin (of_int n))"
  by (simp add: float_of_int_def round64_of_int)

text \<open>A grade that is a whole number of at most 53 bits is a double.\<close>

lemma finite64_of_int: "\<bar>n\<bar> \<le> 2 ^ 53 \<Longrightarrow> finite64 (Fin (of_int n))"
  by (simp add: finite64_def round64_of_int)

text \<open>The exponents met when the examples are evaluated.\<close>

lemmas expo_evals = expo_eqI [of 0] expo_eqI [of 1] expo_eqI [of 2] expo_eqI [of 3]
  expo_eqI [of 4] expo_eqI [of 5] expo_eqI [of 6] expo_eqI [of 7] expo_eqI [of 8]
  expo_eqI [of 9]

lemmas float_eval = float_of_int_def round64_def half_even_def Let_def expo_evals

subsection \<open>calculate_progress\<close>

lemma float_of_int_0 [simp]: "float_of_int 0 = Inr (Fin 0)"
  by (simp add: float_of_int_def round64_def)

lemma float_of_int_1 [simp]: "float_of_int 1 = Inr (Fin 1)"
  using float_of_int_small [of 1] by simp

lemma calculate_progress_None:
  "calculate_progress None g =
     (case fdiv (fadd (Fin 0) g) (Fin 1) of Inl e \<Rightarrow> Inl e | Inr a \<Rightarrow> Inr (a, 1))"
  by (simp add: calculate_progress_def round64_def)

lemma first_attempt_round64: "calculate_progress None (round64 x) = Inr (round64 x, 1)"
proof (cases "round64 x")
  case (Fin y)
  then have "round64 y = Fin y" by (rule round64_idem)
  then show ?thesis by (simp add: calculate_progress_None Fin)
qed (simp_all add: calculate_progress_None)

text \<open>
  C8. With no prior progress (None) and a new grade of 70, \<open>calculate_progress\<close>
  returns (70, 1). In general an absent prior aggregate is treated as (0, 0) before the
  incremental-mean formula is applied, so the average of a first attempt is exactly the
  new grade: for every double, which is NaN or \<open>round64 x\<close> for a real \<open>x\<close>.
\<close>

theorem calculate_progress_first_attempt:
  "calculate_progress None (Fin 70) = Inr (Fin 70, 1) \<and>
   calculate_progress None new_grade = calculate_progress (Some (Fin 0, 0)) new_grade \<and>
   calculate_progress None (round64 x) = Inr (round64 x, 1) \<and>
   calculate_progress None NaN = Inr (NaN, 1)"
proof -
  have "round64 70 = Fin 70"
    using round64_exact [of 70 70 0] by simp
  then have "calculate_progress None (Fin 70) = Inr (Fin 70, 1)"
    by (simp add: calculate_progress_None)
  moreover have "calculate_progress None new_grade =
      calculate_progress (Some (Fin 0, 0)) new_grade"
    by (simp add: calculate_progress_def)
  moreover have "calculate_progress None NaN = Inr (NaN, 1)"
    by (simp add: calculate_progress_None)
  ultimately show ?thesis using first_attempt_round64 by blast
qed

lemma fdiv_by_positive: "1 \<le> y \<Longrightarrow> \<exists>q. fdiv s (Fin y) = Inr q"
  by (cases s) auto

lemma calculate_progress_returns:
  assumes "float_of_int n = Inr (Fin k)" "float_of_int (n + 1) = Inr (Fin d)" "1 \<le> d"
  shows "\<exists>q. calculate_progress (Some (a, n)) g = Inr (q, n + 1)"
proof -
  from fdiv_by_positive [OF assms(3)]
  obtain q where "fdiv (fadd (fmul a (Fin k)) g) (Fin d) = Inr q" by blast
  then show ?thesis by (simp add: calculate_progress_def assms(1,2))
qed

text \<open>
  A pair with a count of at least 0: the call returns a pair with the count plus one,
  or one of the two conversions of a count to a float raises OverflowError.
\<close>

lemma calculate_progress_pair:
  assumes "0 \<le> n"
  shows "calculate_progress (Some (a, n)) g = Inl OverflowError \<or>
         (\<exists>q. calculate_progress (Some (a, n)) g = Inr (q, n + 1))"
proof -
  have "float_of_int n = Inl OverflowError \<or> (\<exists>k. float_of_int n = Inr (Fin k))"
  proof (cases "n = 0")
    case True
    then show ?thesis by simp
  next
    case False
    then have "1 \<le> n" using assms by simp
    from float_of_int_pos [OF this] show ?thesis by blast
  qed
  moreover have "float_of_int (n + 1) = Inl OverflowError \<or>
      (\<exists>d. float_of_int (n + 1) = Inr (Fin d) \<and> 1 \<le> d)"
    using float_of_int_pos [of "n + 1"] assms by simp
  ultimately consider "float_of_int n = Inl OverflowError"
    | k where "float_of_int n = Inr (Fin k)" "float_of_int (n + 1) = Inl OverflowError"
    | k d where "float_of_int n = Inr (Fin k)" "float_of_int (n + 1) = Inr (Fin d)" "1 \<le> d"
    by blast
  then show ?thesis
  proof cases
    case 1
    then show ?thesis by (simp add: calculate_progress_def)
  next
    case 2
    then show ?thesis by (simp add: calculate_progress_def)
  next
    case 3
    from calculate_progress_returns [OF this] show ?thesis by blast
  qed
qed

lemma calculate_progress_pair_small:
  assumes "0 \<le> n" "n + 1 < 2 ^ 1023"
  shows "\<exists>q. calculate_progress (Some (a, n)) g = Inr (q, n + 1)"
proof -
  have "\<exists>k. float_of_int n = Inr (Fin k)"
  proof (cases "n = 0")
    case True
    then show ?thesis by simp
  next
    case False
    then have "1 \<le> n" "n < 2 ^ 1023" using assms by simp_all
    from float_of_int_fin [OF this] show ?thesis by blast
  qed
  moreover have "\<exists>d. float_of_int (n + 1) = Inr (Fin d) \<and> 1 \<le> d"
    using float_of_int_fin [of "n + 1"] assms by simp
  ultimately show ?thesis using calculate_progress_returns by blast
qed

text \<open>A count that no double can hold.\<close>

lemma calculate_progress_overflow:
  "2 ^ 1024 \<le> n \<Longrightarrow> calculate_progress (Some (a, n)) g = Inl OverflowError"
  by (simp add: calculate_progress_def float_of_int_huge)

text \<open>
  C10. When the prior progress is None or a pair whose attempt count is at least 0, the
  divisor \<open>new_attempts\<close> is the old attempt count plus one, hence at least 1, and
  \<open>calculate_progress\<close> does not raise ZeroDivisionError: it returns a pair with that
  count, always when the count is below \<open>2 ^ 1023\<close>, and otherwise it returns or the
  conversion of a count to a float raises OverflowError.
\<close>

theorem calculate_progress_divisor:
  assumes "progress = None \<or> (\<exists>a n. progress = Some (a, n) \<and> 0 \<le> n)"
  shows "\<exists>new_attempts.
           new_attempts = (case progress of None \<Rightarrow> 0 | Some (a, n) \<Rightarrow> n) + 1 \<and>
           1 \<le> new_attempts \<and>
           calculate_progress progress new_grade \<noteq> Inl ZeroDivisionError \<and>
           (calculate_progress progress new_grade = Inl OverflowError \<or>
            (\<exists>new_average.
               calculate_progress progress new_grade = Inr (new_average, new_attempts))) \<and>
           (new_attempts < 2 ^ 1023 \<longrightarrow>
            (\<exists>new_average.
               calculate_progress progress new_grade = Inr (new_average, new_attempts)))"
proof -
  obtain a n where p: "calculate_progress progress new_grade =
      calculate_progress (Some (a, n)) new_grade"
    and n: "0 \<le> n" and old: "(case progress of None \<Rightarrow> 0 | Some (a, n) \<Rightarrow> n) = n"
  proof (cases progress)
    case None
    have "calculate_progress None new_grade = calculate_progress (Some (Fin 0, 0)) new_grade"
      by (simp add: calculate_progress_def)
    then show ?thesis using that [of "Fin 0" 0] None by simp
  next
    case (Some q)
    then show ?thesis using that [of "fst q" "snd q"] assms by auto
  qed
  from calculate_progress_pair [OF n, of a new_grade]
  have a1: "calculate_progress progress new_grade = Inl OverflowError \<or>
      (\<exists>q. calculate_progress progress new_grade = Inr (q, n + 1))"
    by (simp add: p)
  then have a2: "calculate_progress progress new_grade \<noteq> Inl ZeroDivisionError" by auto
  have a3: "n + 1 < 2 ^ 1023 \<longrightarrow>
      (\<exists>q. calculate_progress progress new_grade = Inr (q, n + 1))"
    using calculate_progress_pair_small [OF n, of a new_grade] by (simp add: p)
  show ?thesis using a1 a2 a3 n by (simp add: old)
qed

theorem calculate_progress_divisor_witness:
  "(0::int) \<le> 2 \<and>
   (\<exists>new_average. calculate_progress (Some (Fin 3, 2)) (Fin 6) = Inr (new_average, 3)) \<and>
   calculate_progress (Some (Fin 3, 2)) (Fin 6) \<noteq> Inl ZeroDivisionError"
  using calculate_progress_divisor [of "Some (Fin 3, 2)" "Fin 6"] by simp

subsection \<open>The recurrence, evaluated and in exact arithmetic\<close>

lemma running_progress_demo:
  "running_progress None [Fin 59, Fin 54, Fin 87, Fin 45] = Inr (Some (Fin (245 / 4), 4))"
  by (simp add: calculate_progress_def float_eval)

lemma running_progress_rounding:
  "running_progress None rounding_grades =
     Inr (Some (Fin (8162774324609025 / 140737488355328), 8))"
  by (simp add: rounding_grades_def calculate_progress_def float_eval)

lemma exact_progress_from:
  assumes "1 \<le> n"
  shows "foldl exact_step (a, n) gs =
           ((a * of_int n + sum_list gs) / of_int (n + int (length gs)), n + int (length gs))"
  using assms
proof (induction gs arbitrary: a n)
  case Nil
  then show ?case by simp
next
  case (Cons g gs)
  have "foldl exact_step (a, n) (g # gs) =
      foldl exact_step ((a * of_int n + g) / of_int (n + 1), n + 1) gs"
    by (simp add: exact_step_def)
  also have "\<dots> = (((a * of_int n + g) / of_int (n + 1) * of_int (n + 1) + sum_list gs)
      / of_int (n + 1 + int (length gs)), n + 1 + int (length gs))"
    using Cons.IH [of "n + 1" "(a * of_int n + g) / of_int (n + 1)"] Cons.prems by simp
  also have "(a * of_int n + g) / of_int (n + 1) * of_int (n + 1) = a * of_int n + g"
    using Cons.prems by simp
  finally show ?case by (simp add: add.assoc add.commute add.left_commute)
qed

text \<open>In exact arithmetic the recurrence of the specification gives the mean.\<close>

lemma exact_progress_mean:
  assumes "gs \<noteq> []"
  shows "exact_progress gs = (sum_list gs / real (length gs), int (length gs))"
proof -
  obtain g rest where gs: "gs = g # rest" using assms by (cases gs) auto
  have "exact_progress gs = foldl exact_step (g, 1) rest"
    by (simp add: exact_progress_def exact_step_def gs)
  then show ?thesis
    using exact_progress_from [of 1 g rest] by (simp add: gs add.commute)
qed

subsection \<open>The progress update, statement by statement\<close>

lemma select_progress_rows:
  "in_int64 u \<Longrightarrow> in_int64 e \<Longrightarrow> select_progress u e d = Inr (pair_rows d u e)"
  by (simp add: select_progress_def pair_rows_def on_table_def table_names_def bind_ints_def)

lemma filter_update_progress:
  "filter (\<lambda>r. progress_key r = k)
     (map (\<lambda>r. if progress_key r = k
          then r\<lparr>p_average_grade := a, p_attempt_count := n, p_last_attempt := t\<rparr> else r) rows) =
   map (\<lambda>r. r\<lparr>p_average_grade := a, p_attempt_count := n, p_last_attempt := t\<rparr>)
     (filter (\<lambda>r. progress_key r = k) rows)"
  by (induction rows) (auto simp: progress_key_def)

lemma pair_rows_empty_iff:
  "pair_rows d u e = [] \<longleftrightarrow> (u, e) \<notin> set (map progress_key (user_progress d))"
  by (force simp: pair_rows_def filter_empty_conv)

lemma pair_rows_with_progress:
  "pair_rows (with_progress d u e a n date) u e =
     (if pair_rows d u e = [] then [(sql_real a, n)]
      else map (\<lambda>_. (sql_real a, n)) (pair_rows d u e))"
proof (cases "pair_rows d u e = []")
  case True
  then have "(u, e) \<notin> set (map progress_key (user_progress d))"
    by (simp add: pair_rows_empty_iff)
  then show ?thesis
    using True by (simp add: with_progress_def pair_rows_def progress_key_def)
next
  case False
  then have "(u, e) \<in> set (map progress_key (user_progress d))"
    by (simp add: pair_rows_empty_iff)
  then show ?thesis
    using False by (simp add: with_progress_def pair_rows_def filter_update_progress o_def)
qed

text \<open>
  The update on an open connection, when \<open>calculate_progress\<close> returns a pair whose
  count can be bound: the row of the pair is written, and committed.
\<close>

lemma update_user_progression_ok:
  assumes "\<not> closed c" "in_int64 u" "in_int64 e"
    and "u \<in> set (user_ids (db c))" "e \<in> set (exercise_ids (db c))"
    and "calculate_progress_of_row (fetchone (pair_rows (db c) u e)) g = Inr (a, n)"
    and "in_int64 n"
  shows "update_user_progression c date u e g =
    (Inr (), c\<lparr>db := with_progress (db c) u e a n date,
               committed := with_progress (db c) u e a n date\<rparr>)"
proof (cases "pair_rows (db c) u e = []")
  case True
  then have nokey: "(u, e) \<notin> set (map progress_key (user_progress (db c)))"
    by (simp add: pair_rows_empty_iff)
  show ?thesis
    using assms nokey True
    by (simp add: update_user_progression_def try_cursor_def bind_def query_def
        select_progress_rows fetchone_def lift_def execute_def insert_progress_def on_table_def
        table_names_def bind_ints_def commit_def with_progress_def)
next
  case False
  then have key: "(u, e) \<in> set (map progress_key (user_progress (db c)))"
    by (simp add: pair_rows_empty_iff)
  from False obtain r rest where rows: "pair_rows (db c) u e = r # rest"
    by (cases "pair_rows (db c) u e") auto
  show ?thesis
    using assms key rows
    by (simp add: update_user_progression_def try_cursor_def bind_def query_def
        select_progress_rows fetchone_def lift_def execute_def update_progress_def on_table_def
        table_names_def bind_ints_def commit_def with_progress_def)
qed

text \<open>
  With both parents present, ids that can be bound, a grade that is not NaN and a free
  rowid, the grade is inserted and committed, and the update runs.
\<close>

lemma add_grade_runs_update:
  assumes "\<not> closed c" "in_int64 u" "in_int64 e"
    and "u \<in> set (user_ids (db c))" "e \<in> set (exercise_ids (db c))"
    and "g \<noteq> NaN"
    and "last_rowid (seq_grades (db c)) (map g_id (grades (db c))) + 1 < 2 ^ 63"
  shows "add_grade c date date2 u e g =
         update_user_progression
           (c\<lparr>db := with_grade (db c) u e g date, committed := with_grade (db c) u e g date\<rparr>)
           date2 u e g"
proof -
  have ins: "insert_grade u e g date (db c) = Inr (with_grade (db c) u e g date)"
    using assms(2-7)
    by (simp add: insert_grade_def on_table_def table_names_def bind_ints_def next_rowid_def
        with_grade_def)
  show ?thesis
    using assms(1)
    by (simp add: add_grade_def try_cursor_def bind_def execute_def ins commit_def
        update_user_progression_def split: prod.splits sum.splits exn.splits)
qed

lemma add_grade_ok:
  assumes "\<not> closed c" "in_int64 u" "in_int64 e"
    and "u \<in> set (user_ids (db c))" "e \<in> set (exercise_ids (db c))"
    and "g \<noteq> NaN"
    and "last_rowid (seq_grades (db c)) (map g_id (grades (db c))) + 1 < 2 ^ 63"
    and "calculate_progress_of_row (fetchone (pair_rows (db c) u e)) g = Inr (a, n)"
    and "in_int64 n"
  shows "add_grade c date date2 u e g =
    (Inr (), c\<lparr>db := with_progress (with_grade (db c) u e g date) u e a n date2,
               committed := with_progress (with_grade (db c) u e g date) u e a n date2\<rparr>)"
proof -
  let ?c = "c\<lparr>db := with_grade (db c) u e g date, committed := with_grade (db c) u e g date\<rparr>"
  have "\<not> closed ?c" "in_int64 u" "in_int64 e"
    "u \<in> set (user_ids (db ?c))" "e \<in> set (exercise_ids (db ?c))"
    "calculate_progress_of_row (fetchone (pair_rows (db ?c) u e)) g = Inr (a, n)" "in_int64 n"
    using assms by (simp_all add: user_ids_def exercise_ids_def with_grade_def pair_rows_def)
  from update_user_progression_ok [OF this, of date2] show ?thesis
    by (simp add: add_grade_runs_update [OF assms(1-7)])
qed

text \<open>The same, with the pair read off the result: the form used to evaluate.\<close>

lemma add_grade_eval:
  assumes "\<not> closed c" "in_int64 u" "in_int64 e"
    and "u \<in> set (user_ids (db c))" "e \<in> set (exercise_ids (db c))"
    and "g \<noteq> NaN"
    and "last_rowid (seq_grades (db c)) (map g_id (grades (db c))) + 1 < 2 ^ 63"
    and "\<not> isl (calculate_progress_of_row (fetchone (pair_rows (db c) u e)) g)"
    and "in_int64 (snd (projr (calculate_progress_of_row (fetchone (pair_rows (db c) u e)) g)))"
  shows "add_grade c date date2 u e g =
    (Inr (), c\<lparr>db := with_progress (with_grade (db c) u e g date) u e
                 (fst (projr (calculate_progress_of_row (fetchone (pair_rows (db c) u e)) g)))
                 (snd (projr (calculate_progress_of_row (fetchone (pair_rows (db c) u e)) g)))
                 date2,
               committed := with_progress (with_grade (db c) u e g date) u e
                 (fst (projr (calculate_progress_of_row (fetchone (pair_rows (db c) u e)) g)))
                 (snd (projr (calculate_progress_of_row (fetchone (pair_rows (db c) u e)) g)))
                 date2\<rparr>)"
proof -
  obtain a n where r: "calculate_progress_of_row (fetchone (pair_rows (db c) u e)) g = Inr (a, n)"
    using assms(8) by (cases "calculate_progress_of_row (fetchone (pair_rows (db c) u e)) g") auto
  have "in_int64 n" using assms(9) r by simp
  from add_grade_ok [OF assms(1-7) r this, of date date2] show ?thesis
    by (simp add: r)
qed

subsection \<open>The example stores, evaluated\<close>

lemmas grade_eval = with_grade_def with_progress_def pair_rows_def progress_key_def
  user_ids_def exercise_ids_def last_rowid_def next_rowid_def in_int64_def fetchone_def
  calculate_progress_of_row_def calculate_progress_def sql_real_def

lemma demo_store_eq:
  "demo_store =
     \<lparr>closed = False,
      db = \<lparr>users = [\<lparr>u_id = 1, u_name = ''John'', u_created_at = ''2025-03-01 10:00:00''\<rparr>],
            exercises = [\<lparr>e_id = 1, e_name = ''Test'', e_description = ''Testing insertion''\<rparr>],
            grades = [], user_progress = [],
            seq_users = 1, seq_exercises = 1, seq_grades = 0\<rparr>,
      committed =
           \<lparr>users = [\<lparr>u_id = 1, u_name = ''John'', u_created_at = ''2025-03-01 10:00:00''\<rparr>],
            exercises = [\<lparr>e_id = 1, e_name = ''Test'', e_description = ''Testing insertion''\<rparr>],
            grades = [], user_progress = [],
            seq_users = 1, seq_exercises = 1, seq_grades = 0\<rparr>,
      stdout = []\<rparr>"
  by (simp add: demo_store_def initial_def empty_database_def add_user_def add_exercise_def
      frame_defs insert_user_def insert_exercise_def next_rowid_def last_rowid_def
      user_ids_def exercise_ids_def)

lemma demo_graded_eq:
  "demo_graded =
    \<lparr>closed = False,
     db =
     \<lparr>users = [\<lparr>u_id = 1, u_name = ''John'', u_created_at = ''2025-03-01 10:00:00''\<rparr>],
      exercises = [\<lparr>e_id = 1, e_name = ''Test'', e_description = ''Testing insertion''\<rparr>],
      grades =
        [\<lparr>g_id = 1, g_user_id = 1, g_exercise_id = 1, g_grade = Fin 59,
          g_time_attempt = ''2025-03-01 10:00:01''\<rparr>,
         \<lparr>g_id = 2, g_user_id = 1, g_exercise_id = 1, g_grade = Fin 54,
          g_time_attempt = ''2025-03-01 10:00:02''\<rparr>,
         \<lparr>g_id = 3, g_user_id = 1, g_exercise_id = 1, g_grade = Fin 87,
          g_time_attempt = ''2025-03-01 10:00:02''\<rparr>,
         \<lparr>g_id = 4, g_user_id = 1, g_exercise_id = 1, g_grade = Fin 45,
          g_time_attempt = ''2025-03-01 10:00:03''\<rparr>],
      user_progress =
        [\<lparr>p_user_id = 1, p_exercise_id = 1, p_average_grade = Some (Fin (245 / 4)),
          p_attempt_count = 4, p_last_attempt = ''2025-03-01 10:00:03''\<rparr>],
      seq_users = 1, seq_exercises = 1, seq_grades = 4\<rparr>,
     committed =
     \<lparr>users = [\<lparr>u_id = 1, u_name = ''John'', u_created_at = ''2025-03-01 10:00:00''\<rparr>],
      exercises = [\<lparr>e_id = 1, e_name = ''Test'', e_description = ''Testing insertion''\<rparr>],
      grades =
        [\<lparr>g_id = 1, g_user_id = 1, g_exercise_id = 1, g_grade = Fin 59,
          g_time_attempt = ''2025-03-01 10:00:01''\<rparr>,
         \<lparr>g_id = 2, g_user_id = 1, g_exercise_id = 1, g_grade = Fin 54,
          g_time_attempt = ''2025-03-01 10:00:02''\<rparr>,
         \<lparr>g_id = 3, g_user_id = 1, g_exercise_id = 1, g_grade = Fin 87,
          g_time_attempt = ''2025-03-01 10:00:02''\<rparr>,
         \<lparr>g_id = 4, g_user_id = 1, g_exercise_id = 1, g_grade = Fin 45,
          g_time_attempt = ''2025-03-01 10:00:03''\<rparr>],
      user_progress =
        [\<lparr>p_user_id = 1, p_exercise_id = 1, p_average_grade = Some (Fin (245 / 4)),
          p_attempt_count = 4, p_last_attempt = ''2025-03-01 10:00:03''\<rparr>],
      seq_users = 1, seq_exercises = 1, seq_grades = 4\<rparr>,
     stdout = []\<rparr>"
  by (simp add: demo_graded_def demo_store_eq add_grade_eval grade_eval float_eval)


lemma demo_class_tables:
  "closed demo_class = False \<and>
   users (db demo_class) =
     [\<lparr>u_id = 1, u_name = ''John'', u_created_at = ''2025-03-01 10:00:00''\<rparr>,
      \<lparr>u_id = 2, u_name = ''Ann'', u_created_at = ''2025-03-03 08:00:00''\<rparr>] \<and>
   exercises (db demo_class) =
     [\<lparr>e_id = 1, e_name = ''Test'', e_description = ''Testing insertion''\<rparr>,
      \<lparr>e_id = 2, e_name = ''Scales'', e_description = ''Major scales''\<rparr>] \<and>
   grades (db demo_class) =
     [\<lparr>g_id = 1, g_user_id = 1, g_exercise_id = 2, g_grade = Fin 70,
       g_time_attempt = ''2025-03-03 09:00:00''\<rparr>,
      \<lparr>g_id = 2, g_user_id = 2, g_exercise_id = 1, g_grade = Fin 80,
       g_time_attempt = ''2025-03-03 09:00:00''\<rparr>,
      \<lparr>g_id = 3, g_user_id = 1, g_exercise_id = 1, g_grade = Fin 60,
       g_time_attempt = ''2025-03-03 09:00:00''\<rparr>,
      \<lparr>g_id = 4, g_user_id = 2, g_exercise_id = 2, g_grade = Fin 90,
       g_time_attempt = ''2025-03-03 09:30:00''\<rparr>,
      \<lparr>g_id = 5, g_user_id = 1, g_exercise_id = 2, g_grade = Fin 50,
       g_time_attempt = ''2025-03-03 08:30:00''\<rparr>]"
proof -
  have "exec (exec demo_store (AddUser ''2025-03-03 08:00:00'' (Some ''Ann'')))
          (AddExercise (Some ''Scales'') (Some ''Major scales'')) =
      demo_store\<lparr>db := (db demo_store)\<lparr>
          users := users (db demo_store) @
            [\<lparr>u_id = 2, u_name = ''Ann'', u_created_at = ''2025-03-03 08:00:00''\<rparr>],
          exercises := exercises (db demo_store) @
            [\<lparr>e_id = 2, e_name = ''Scales'', e_description = ''Major scales''\<rparr>],
          seq_users := 2, seq_exercises := 2\<rparr>,
        committed := (db demo_store)\<lparr>
          users := users (db demo_store) @
            [\<lparr>u_id = 2, u_name = ''Ann'', u_created_at = ''2025-03-03 08:00:00''\<rparr>],
          exercises := exercises (db demo_store) @
            [\<lparr>e_id = 2, e_name = ''Scales'', e_description = ''Major scales''\<rparr>],
          seq_users := 2, seq_exercises := 2\<rparr>\<rparr>"
    by (simp add: demo_store_eq add_user_def add_exercise_def frame_defs insert_user_def
        insert_exercise_def user_ids_def exercise_ids_def next_rowid_def last_rowid_def)
  then show ?thesis
    by (simp add: demo_class_def demo_store_eq add_grade_eval grade_eval float_eval)
qed

lemma reachable_demo_graded: "reachable demo_graded"
  unfolding demo_graded_def demo_store_def
  by (intro reachable_exec reachable_initial)


subsection \<open>A sequence of grades for one pair\<close>

lemma fold_max_ge_init: "(s::int) \<le> fold max xs s"
proof (induction xs arbitrary: s)
  case Nil
  show ?case by simp
next
  case (Cons x xs)
  have "s \<le> max x s" by simp
  also have "\<dots> \<le> fold max xs (max x s)" by (rule Cons.IH)
  finally show ?case by simp
qed

lemma fold_max_ge_elem: "x \<in> set xs \<Longrightarrow> (x::int) \<le> fold max xs s"
proof (induction xs arbitrary: s)
  case Nil
  then show ?case by simp
next
  case (Cons y ys)
  show ?case
  proof (cases "x = y")
    case True
    have "x \<le> max y s" using True by simp
    also have "\<dots> \<le> fold max ys (max y s)" by (rule fold_max_ge_init)
    finally show ?thesis by simp
  next
    case False
    then have "x \<in> set ys" using Cons.prems by simp
    then show ?thesis using Cons.IH by simp
  qed
qed

lemma fold_max_absorb: "(\<And>x. x \<in> set xs \<Longrightarrow> x \<le> s) \<Longrightarrow> fold max xs (s::int) = s"
  by (induction xs) (simp_all add: max_absorb2)

text \<open>The rowid that AUTOINCREMENT has just given is the largest.\<close>

lemma last_rowid_append:
  "last_rowid (last_rowid s ids + 1) (ids @ [last_rowid s ids + 1]) = last_rowid s ids + 1"
proof -
  define L where "L = fold max ids s"
  have "fold max ids (L + 1) = L + 1"
  proof (rule fold_max_absorb)
    fix x assume "x \<in> set ids"
    then have "x \<le> L" unfolding L_def by (rule fold_max_ge_elem)
    then show "x \<le> L + 1" by simp
  qed
  then have "fold max (ids @ [L + 1]) (L + 1) = L + 1" by simp
  then show ?thesis by (simp add: last_rowid_def L_def)
qed

lemma last_rowid_with_grade:
  "last_rowid (seq_grades (with_grade d u e g date)) (map g_id (grades (with_grade d u e g date))) =
     last_rowid (seq_grades d) (map g_id (grades d)) + 1"
  by (simp add: with_grade_def last_rowid_append)

lemma pair_rows_with_grade: "pair_rows (with_grade d u e g date) u' e' = pair_rows d u' e'"
  by (simp add: pair_rows_def with_grade_def)

lemma grades_room_step:
  assumes "grades_room d (Suc k)"
  shows "grades_room (with_progress (with_grade d u e g date) u e a n date2) k"
proof -
  let ?d = "with_progress (with_grade d u e g date) u e a n date2"
  have same: "seq_grades ?d = seq_grades (with_grade d u e g date)"
    "grades ?d = grades (with_grade d u e g date)"
    by (simp_all add: with_progress_def)
  have "seq_grades d \<le> last_rowid (seq_grades d) (map g_id (grades d))"
    unfolding last_rowid_def by (rule fold_max_ge_init)
  then have "0 \<le> seq_grades (with_grade d u e g date)"
    using assms by (simp add: grades_room_def with_grade_def)
  then show ?thesis
    using assms unfolding grades_room_def same last_rowid_with_grade by simp
qed

lemma grades_room_bound:
  assumes "grades_room d k"
  shows "int k < 2 ^ 63"
proof -
  have "seq_grades d \<le> last_rowid (seq_grades d) (map g_id (grades d))"
    unfolding last_rowid_def by (rule fold_max_ge_init)
  then show ?thesis using assms by (simp add: grades_room_def)
qed

text \<open>
  With a finite grade, a prior average that is a number and a count that SQLite can
  hold, the new average is a number: no product, sum or quotient of the formula is
  \<open>0 * inf\<close>, \<open>inf - inf\<close> or divides by zero.
\<close>

lemma fmul_pos_not_NaN: "0 < y \<Longrightarrow> a \<noteq> NaN \<Longrightarrow> fmul a (Fin y) \<noteq> NaN"
  by (cases a) simp_all

lemma fadd_fin_not_NaN: "b \<noteq> NaN \<Longrightarrow> fadd b (Fin r) \<noteq> NaN"
  by (cases b) simp_all

lemma fdiv_pos_not_NaN: "0 < d \<Longrightarrow> s \<noteq> NaN \<Longrightarrow> \<exists>q. fdiv s (Fin d) = Inr q \<and> q \<noteq> NaN"
  by (cases s) simp_all

lemma calculate_progress_some_step:
  assumes "a \<noteq> NaN" "1 \<le> n" "n + 1 < 2 ^ 63"
  shows "\<exists>a'. calculate_progress (Some (a, n)) (Fin r) = Inr (a', n + 1) \<and> a' \<noteq> NaN"
proof -
  have "(2::int) ^ 63 < 2 ^ 1023" by simp
  then have "n < 2 ^ 1023" "1 \<le> n + 1" "n + 1 < 2 ^ 1023" using assms by simp_all
  then obtain y d where y: "float_of_int n = Inr (Fin y)" "1 \<le> y"
    and d: "float_of_int (n + 1) = Inr (Fin d)" "1 \<le> d"
    using float_of_int_fin [of n] float_of_int_fin [of "n + 1"] assms by blast
  have "0 < y" "0 < d" using y(2) d(2) by simp_all
  then have "fadd (fmul a (Fin y)) (Fin r) \<noteq> NaN"
    using assms(1) by (simp add: fmul_pos_not_NaN fadd_fin_not_NaN)
  with \<open>0 < d\<close> obtain q where "fdiv (fadd (fmul a (Fin y)) (Fin r)) (Fin d) = Inr q" "q \<noteq> NaN"
    using fdiv_pos_not_NaN by blast
  then show ?thesis by (simp add: calculate_progress_def y d)
qed

lemma calculate_progress_none_step:
  "\<exists>a'. calculate_progress None (Fin r) = Inr (a', 1) \<and> a' \<noteq> NaN"
proof -
  have "fadd (Fin 0) (Fin r) \<noteq> NaN" by simp
  then obtain q where "fdiv (fadd (Fin 0) (Fin r)) (Fin 1) = Inr q" "q \<noteq> NaN"
    using fdiv_pos_not_NaN [of 1] by (metis zero_less_one)
  then show ?thesis by (simp add: calculate_progress_None)
qed

text \<open>
  \<open>add_grade\<close> called for one pair, grade after grade, on top of a progress row
  \<open>(a, n)\<close>: every call returns, the row follows \<open>calculate_progress\<close> applied to what
  it held, and the pair keeps one row.
\<close>

lemma add_grades_follow_from:
  assumes "\<not> closed c" "in_int64 u" "in_int64 e"
    and "u \<in> set (user_ids (db c))" "e \<in> set (exercise_ids (db c))"
    and "pair_rows (db c) u e = [(Some a, n)]" "a \<noteq> NaN" "1 \<le> n"
    and "n + int (length gs) < 2 ^ 63"
    and "list_all finite64 (map fst gs)" "grades_room (db c) (length gs)"
  shows "\<exists>c' a'. add_grades c u e gs = Inr c' \<and>
           running_progress (Some (a, n)) (map fst gs) = Inr (Some (a', n + int (length gs))) \<and>
           pair_rows (db c') u e = [(Some a', n + int (length gs))]"
  using assms
proof (induction gs arbitrary: c a n)
  case Nil
  then show ?case by simp
next
  case (Cons x gs)
  obtain g date date2 where x: "x = (g, date, date2)" by (cases x) auto
  obtain r where g: "g = Fin r"
    using Cons.prems(10) x by (cases g) (simp_all add: finite64_def)
  have n1: "n + 1 < 2 ^ 63" using Cons.prems(9) by simp
  obtain a' where step: "calculate_progress (Some (a, n)) g = Inr (a', n + 1)" and a': "a' \<noteq> NaN"
    using calculate_progress_some_step [OF Cons.prems(7,8) n1, of r] g by auto
  have row: "calculate_progress_of_row (fetchone (pair_rows (db c) u e)) g = Inr (a', n + 1)"
    using step Cons.prems(6) by (simp add: fetchone_def calculate_progress_of_row_def)
  have int: "in_int64 (n + 1)" using n1 Cons.prems(8) by (simp add: in_int64_def)
  have room: "last_rowid (seq_grades (db c)) (map g_id (grades (db c))) + 1 < 2 ^ 63"
    using Cons.prems(11) by (simp add: grades_room_def)
  have gnan: "g \<noteq> NaN" using g by simp
  define c1 where
    "c1 = c\<lparr>db := with_progress (with_grade (db c) u e g date) u e a' (n + 1) date2,
            committed := with_progress (with_grade (db c) u e g date) u e a' (n + 1) date2\<rparr>"
  have ag: "add_grade c date date2 u e g = (Inr (), c1)"
    unfolding c1_def by (rule add_grade_ok [OF Cons.prems(1-5) gnan room row int])
  have p1: "\<not> closed c1" "u \<in> set (user_ids (db c1))" "e \<in> set (exercise_ids (db c1))"
    using Cons.prems(1,4,5)
    by (simp_all add: c1_def user_ids_def exercise_ids_def with_progress_def with_grade_def)
  have p2: "pair_rows (db c1) u e = [(Some a', n + 1)]"
    using Cons.prems(6) a'
    by (simp add: c1_def pair_rows_with_progress pair_rows_with_grade sql_real_def)
  have "grades_room (db c) (Suc (length gs))" using Cons.prems(11) by simp
  then have p3: "grades_room (db c1) (length gs)"
    unfolding c1_def by (simp add: grades_room_step)
  have p4: "n + 1 + int (length gs) < 2 ^ 63" using Cons.prems(9) by simp
  have p5: "list_all finite64 (map fst gs)" using Cons.prems(10) by simp
  have p6: "1 \<le> n + 1" using Cons.prems(8) by simp
  from Cons.IH [OF p1(1) Cons.prems(2,3) p1(2,3) p2 a' p6 p4 p5 p3]
  obtain c' a'' where rest: "add_grades c1 u e gs = Inr c'"
    "running_progress (Some (a', n + 1)) (map fst gs) = Inr (Some (a'', n + 1 + int (length gs)))"
    "pair_rows (db c') u e = [(Some a'', n + 1 + int (length gs))]"
    by blast
  have len: "n + int (length (x # gs)) = n + 1 + int (length gs)" by simp
  have "add_grades c u e (x # gs) = Inr c'" using ag rest(1) by (simp add: x)
  moreover have "running_progress (Some (a, n)) (map fst (x # gs)) =
      Inr (Some (a'', n + 1 + int (length gs)))"
    using step rest(2) by (simp add: x)
  ultimately show ?case unfolding len using rest(3) by blast
qed

text \<open>The same from a store that has no row for the pair.\<close>

lemma add_grades_follow:
  assumes "\<not> closed c" "in_int64 u" "in_int64 e"
    and "u \<in> set (user_ids (db c))" "e \<in> set (exercise_ids (db c))"
    and "(u, e) \<notin> set (map progress_key (user_progress (db c)))"
    and "gs \<noteq> []" "list_all finite64 (map fst gs)" "grades_room (db c) (length gs)"
  shows "\<exists>c' a. add_grades c u e gs = Inr c' \<and>
           running_progress None (map fst gs) = Inr (Some (a, int (length gs))) \<and>
           pair_rows (db c') u e = [(Some a, int (length gs))]"
proof -
  obtain x rest where gs: "gs = x # rest" using assms(7) by (cases gs) auto
  obtain g date date2 where x: "x = (g, date, date2)" by (cases x) auto
  obtain r where g: "g = Fin r"
    using assms(8) gs x by (cases g) (simp_all add: finite64_def)
  have none: "pair_rows (db c) u e = []" using assms(6) by (simp add: pair_rows_empty_iff)
  obtain a' where step: "calculate_progress None g = Inr (a', 1)" and a': "a' \<noteq> NaN"
    using calculate_progress_none_step [of r] g by auto
  have row: "calculate_progress_of_row (fetchone (pair_rows (db c) u e)) g = Inr (a', 1)"
    using step none by (simp add: fetchone_def calculate_progress_of_row_def)
  have int: "in_int64 1" by (simp add: in_int64_def)
  have room: "last_rowid (seq_grades (db c)) (map g_id (grades (db c))) + 1 < 2 ^ 63"
    using assms(9) gs by (simp add: grades_room_def)
  have gnan: "g \<noteq> NaN" using g by simp
  define c1 where
    "c1 = c\<lparr>db := with_progress (with_grade (db c) u e g date) u e a' 1 date2,
            committed := with_progress (with_grade (db c) u e g date) u e a' 1 date2\<rparr>"
  have ag: "add_grade c date date2 u e g = (Inr (), c1)"
    unfolding c1_def by (rule add_grade_ok [OF assms(1-5) gnan room row int])
  have p1: "\<not> closed c1" "u \<in> set (user_ids (db c1))" "e \<in> set (exercise_ids (db c1))"
    using assms(1,4,5)
    by (simp_all add: c1_def user_ids_def exercise_ids_def with_progress_def with_grade_def)
  have p2: "pair_rows (db c1) u e = [(Some a', 1)]"
    using none a'
    by (simp add: c1_def pair_rows_with_progress pair_rows_with_grade sql_real_def)
  have "grades_room (db c) (Suc (length rest))" using assms(9) gs by simp
  then have p3: "grades_room (db c1) (length rest)"
    unfolding c1_def by (simp add: grades_room_step)
  have "int (length gs) < 2 ^ 63" using assms(9) by (rule grades_room_bound)
  then have p4: "1 + int (length rest) < 2 ^ 63" by (simp add: gs)
  have p5: "list_all finite64 (map fst rest)" using assms(8) gs by simp
  from add_grades_follow_from [OF p1(1) assms(2,3) p1(2,3) p2 a' _ p4 p5 p3]
  obtain c' a'' where rest: "add_grades c1 u e rest = Inr c'"
    "running_progress (Some (a', 1)) (map fst rest) = Inr (Some (a'', 1 + int (length rest)))"
    "pair_rows (db c') u e = [(Some a'', 1 + int (length rest))]"
    by auto
  have len: "int (length gs) = 1 + int (length rest)" by (simp add: gs)
  have "add_grades c u e gs = Inr c'" using ag rest(1) by (simp add: gs x)
  moreover have "running_progress None (map fst gs) = Inr (Some (a'', 1 + int (length rest)))"
    using step rest(2) by (simp add: gs x)
  ultimately show ?thesis unfolding len using rest(3) by blast
qed

lemma pair_rows_rows:
  "pair_rows d u e =
     map (\<lambda>r. (p_average_grade r, p_attempt_count r))
       (filter (\<lambda>r. p_user_id r = u \<and> p_exercise_id r = e) (user_progress d))"
  by (simp add: pair_rows_def progress_key_def)

lemma demo_store_ready:
  "\<not> closed demo_store" "in_int64 1" "1 \<in> set (user_ids (db demo_store))"
  "1 \<in> set (exercise_ids (db demo_store))"
  "(1, 1) \<notin> set (map progress_key (user_progress (db demo_store)))"
  "grades_room (db demo_store) 4" "grades_room (db demo_store) 8"
  by (simp_all add: demo_store_eq in_int64_def user_ids_def exercise_ids_def grades_room_def
      last_rowid_def)

lemma demo_grades_finite: "list_all finite64 (map fst demo_grades)"
  using finite64_of_int [of 59] finite64_of_int [of 54] finite64_of_int [of 87]
    finite64_of_int [of 45]
  by (simp add: demo_grades_def)

lemma rounding_grades_finite: "list_all finite64 rounding_grades"
  using finite64_of_int [of 56] finite64_of_int [of 73] finite64_of_int [of 45]
    finite64_of_int [of 75] finite64_of_int [of 88] finite64_of_int [of 49]
    finite64_of_int [of 64] finite64_of_int [of 14]
  by (simp add: rounding_grades_def)

lemma rounding_attempts_grades:
  "map fst rounding_attempts = rounding_grades" "length rounding_attempts = 8"
  "rounding_attempts \<noteq> []"
  by (simp_all add: rounding_attempts_def rounding_grades_def)

text \<open>
  C1, as the specification states it: the stored average equals the arithmetic mean of
  the grades. The eight grades 56, 73, 45, 75, 88, 49, 64, 14 have the mean 58; added
  for the pair (1, 1) of the demonstration store, the stored average is the double
  above 58, which Python prints as 58.00000000000001.
\<close>

theorem add_grades_mean_counterexample:
  "\<exists>c'. add_grades demo_store 1 1 rounding_attempts = Inr c' \<and>
      map (\<lambda>r. (p_average_grade r, p_attempt_count r))
        (filter (\<lambda>r. p_user_id r = 1 \<and> p_exercise_id r = 1) (user_progress (db c'))) =
        [(Some (Fin (8162774324609025 / 140737488355328)), 8)] \<and>
      sum_list (map value_of rounding_grades) / real (length rounding_grades) = 58 \<and>
      Fin (8162774324609025 / 140737488355328) \<noteq> Fin 58"
proof -
  have fin: "list_all finite64 (map fst rounding_attempts)"
    using rounding_grades_finite by (simp add: rounding_attempts_grades)
  have room: "grades_room (db demo_store) (length rounding_attempts)"
    using demo_store_ready(7) by (simp add: rounding_attempts_grades)
  from add_grades_follow [OF demo_store_ready(1,2,2,3,4,5) rounding_attempts_grades(3) fin room]
  obtain c' a where c': "add_grades demo_store 1 1 rounding_attempts = Inr c'"
    and run: "running_progress None (map fst rounding_attempts) =
        Inr (Some (a, int (length rounding_attempts)))"
    and rows: "pair_rows (db c') 1 1 = [(Some a, int (length rounding_attempts))]"
    by blast
  have "a = Fin (8162774324609025 / 140737488355328)"
    using run running_progress_rounding by (simp add: rounding_attempts_grades)
  then have "map (\<lambda>r. (p_average_grade r, p_attempt_count r))
        (filter (\<lambda>r. p_user_id r = 1 \<and> p_exercise_id r = 1) (user_progress (db c'))) =
        [(Some (Fin (8162774324609025 / 140737488355328)), 8)]"
    using rows by (simp add: pair_rows_rows rounding_attempts_grades)
  moreover have "sum_list (map value_of rounding_grades) / real (length rounding_grades) = 58"
    by (simp add: rounding_grades_def value_of_def)
  ultimately show ?thesis using c' by simp
qed

text \<open>
  C1, amended. For every non-empty sequence of N finite grades added with \<open>add_grade\<close>
  for the same existing (user, exercise) pair on an open connection, from a state with
  no progress row for the pair, with ids that fit 64 bits and N free rowids in
  \<open>grades\<close>: every call returns, and the pair then has exactly one progress row. Its
  attempt count is N. Its average is the double that the recurrence
  \<open>average' = (average * count + newGrade) / count'\<close> gives from (0, 0) when each
  product, sum and quotient is rounded to a double (\<open>running_progress\<close>). In exact
  arithmetic the same recurrence gives the arithmetic mean of the grades; the stored
  double is the mean up to that rounding.
\<close>

theorem add_grades_progress:
  assumes "\<not> closed c" and "in_int64 user_id" and "in_int64 exercise_id"
    and "user_id \<in> set (user_ids (db c))" and "exercise_id \<in> set (exercise_ids (db c))"
    and "(user_id, exercise_id) \<notin> set (map progress_key (user_progress (db c)))"
    and "gs \<noteq> []" and "list_all finite64 (map fst gs)" and "grades_room (db c) (length gs)"
  shows "\<exists>c' average.
           add_grades c user_id exercise_id gs = Inr c' \<and>
           map (\<lambda>r. (p_average_grade r, p_attempt_count r))
             (filter (\<lambda>r. p_user_id r = user_id \<and> p_exercise_id r = exercise_id)
                (user_progress (db c'))) = [(Some average, int (length gs))] \<and>
           running_progress None (map fst gs) = Inr (Some (average, int (length gs))) \<and>
           exact_progress (map (value_of \<circ> fst) gs) =
             (sum_list (map (value_of \<circ> fst) gs) / real (length gs), int (length gs))"
proof -
  from add_grades_follow [OF assms]
  obtain c' a where "add_grades c user_id exercise_id gs = Inr c'"
    "running_progress None (map fst gs) = Inr (Some (a, int (length gs)))"
    "pair_rows (db c') user_id exercise_id = [(Some a, int (length gs))]"
    by blast
  moreover have "exact_progress (map (value_of \<circ> fst) gs) =
      (sum_list (map (value_of \<circ> fst) gs) / real (length gs), int (length gs))"
    using exact_progress_mean [of "map (value_of \<circ> fst) gs"] assms(7) by simp
  ultimately show ?thesis unfolding pair_rows_rows [symmetric] by blast
qed

theorem add_grades_progress_witness:
  "\<exists>c'. add_grades demo_store 1 1 demo_grades = Inr c' \<and>
      map (\<lambda>r. (p_average_grade r, p_attempt_count r))
        (filter (\<lambda>r. p_user_id r = 1 \<and> p_exercise_id r = 1) (user_progress (db c'))) =
        [(Some (Fin (245 / 4)), 4)] \<and>
      running_progress None (map fst demo_grades) = Inr (Some (Fin (245 / 4), 4)) \<and>
      exact_progress (map (value_of \<circ> fst) demo_grades) = (245 / 4, 4)"
proof -
  have len: "length demo_grades = 4" "demo_grades \<noteq> []"
    and fsts: "map fst demo_grades = [Fin 59, Fin 54, Fin 87, Fin 45]"
    by (simp_all add: demo_grades_def)
  have room: "grades_room (db demo_store) (length demo_grades)"
    using demo_store_ready(6) by (simp add: len)
  from add_grades_progress [OF demo_store_ready(1,2,2,3,4,5) len(2) demo_grades_finite room,
      unfolded pair_rows_rows [symmetric]]
  obtain c' average where c': "add_grades demo_store 1 1 demo_grades = Inr c'"
    and rows: "pair_rows (db c') 1 1 = [(Some average, int (length demo_grades))]"
    and run: "running_progress None (map fst demo_grades) =
        Inr (Some (average, int (length demo_grades)))"
    and exact: "exact_progress (map (value_of \<circ> fst) demo_grades) =
        (sum_list (map (value_of \<circ> fst) demo_grades) / real (length demo_grades),
         int (length demo_grades))"
    by blast
  have avg: "average = Fin (245 / 4)"
    using run running_progress_demo by (simp add: fsts)
  have "sum_list (map (value_of \<circ> fst) demo_grades) / real (length demo_grades) = 245 / 4"
    by (simp add: demo_grades_def value_of_def)
  then have "add_grades demo_store 1 1 demo_grades = Inr c' \<and>
      pair_rows (db c') 1 1 = [(Some (Fin (245 / 4)), 4)] \<and>
      running_progress None (map fst demo_grades) = Inr (Some (Fin (245 / 4), 4)) \<and>
      exact_progress (map (value_of \<circ> fst) demo_grades) = (245 / 4, 4)"
    using c' rows run exact avg by (simp add: len)
  then show ?thesis unfolding pair_rows_rows [symmetric] by blast
qed

subsection \<open>A grade for an unknown user or exercise\<close>



subsection \<open>Updating an exercise\<close>

text \<open>
  C3, as the code has it. Both statements of \<open>update_exercise\<close> name the table
  \<open>exercise\<close>; the schema has \<open>exercises\<close>. With a name or a description supplied
  the first statement that runs fails with "no such table", the handler prints it, and
  no row changes: \<open>update_exercise\<close> never changes the tables, whatever its
  arguments. On the example store, asking for the name of exercise 1 to become
  \<open>Scales\<close> prints the error and leaves the name \<open>Test\<close>.
\<close>

theorem update_exercise_changes_nothing:
  "db (snd (update_exercise c exercise_id name description)) = db c \<and>
   update_exercise demo_store 1 (Some ''Scales'') None =
     (Inr (), print_err ''Error updating exercise: ''
                (OperationalError ''no such table: exercise'') demo_store) \<and>
   map e_name (exercises (db (snd (update_exercise demo_store 1 (Some ''Scales'') None)))) =
     [''Test'']"
proof -
  have a: "db (snd (update_exercise c exercise_id name description)) = db c"
    by (simp add: update_exercise_def frame_defs update_exercise_name_def
        update_exercise_description_def)
  have b: "update_exercise demo_store 1 (Some ''Scales'') None =
     (Inr (), print_err ''Error updating exercise: ''
                (OperationalError ''no such table: exercise'') demo_store)"
    by (simp add: demo_store_eq update_exercise_def frame_defs truthy_def
        update_exercise_name_def)
  have c: "map e_name (exercises (db demo_store)) = [''Test'']"
    by (simp add: demo_store_eq)
  show ?thesis
    unfolding b using a b c by (simp add: print_err_def)
qed

subsection \<open>Reading the progress of a user\<close>



subsection \<open>Removing a user\<close>




subsection \<open>Reading the grades of a user\<close>

lemma order_by_desc_mset: "mset (order_by_desc key rows) = mset rows"
  by (simp add: order_by_desc_def)

lemma order_by_desc_sorted: "sorted_wrt (\<lambda>a b. key b \<le> key a) (order_by_desc key rows)"
proof -
  have "sorted (map key (sort_key key (rev rows)))" by simp
  then have "sorted_wrt (\<lambda>a b. key a \<le> key b) (sort_key key (rev rows))"
    by (simp add: sorted_map)
  then show ?thesis
    by (simp add: order_by_desc_def sorted_wrt_rev)
qed

lemma order_by_desc_stable:
  "filter (\<lambda>r. key r = k) (order_by_desc key rows) = filter (\<lambda>r. key r = k) rows"
  by (simp add: order_by_desc_def rev_filter [symmetric] sort_key_stable)

text \<open>The join of the query, written out over the two tables.\<close>

lemma join_rows:
  fixes gs :: "grade_row list" and es :: "exercise_row list"
  shows "[(e_name e, g_grade g, g_time_attempt g).
      g \<leftarrow> gs, Q g, e \<leftarrow> es, e_id e = g_exercise_id g] =
   concat (map (\<lambda>g. map (\<lambda>e. (e_name e, g_grade g, g_time_attempt g))
                       (filter (\<lambda>e. e_id e = g_exercise_id g) es))
               (filter Q gs))"
proof -
  have inner: "concat (map (\<lambda>e. if P e then [f e] else []) es) = map f (filter P es)"
    for P :: "exercise_row \<Rightarrow> bool" and f :: "exercise_row \<Rightarrow> string \<times> float64 \<times> string"
    by (induction es) simp_all
  have outer: "concat (map (\<lambda>g. if Q g then h g else []) gs) = concat (map h (filter Q gs))"
    for h :: "grade_row \<Rightarrow> (string \<times> float64 \<times> string) list"
    by (induction gs) simp_all
  show ?thesis by (simp add: inner outer)
qed

lemma grades_join_rows:
  "grades_join user_id d =
     [(e_name e, g_grade g, g_time_attempt g).
        g \<leftarrow> grades d, g_user_id g = user_id, e \<leftarrow> exercises d, e_id e = g_exercise_id g]"
  unfolding join_rows by (simp add: grades_join_def)

lemma grades_join_at:
  "filter (\<lambda>r. snd (snd r) = t) (grades_join user_id d) =
     [(e_name e, g_grade g, g_time_attempt g).
        g \<leftarrow> grades d, g_user_id g = user_id \<and> g_time_attempt g = t,
        e \<leftarrow> exercises d, e_id e = g_exercise_id g]"
proof -
  have "filter (\<lambda>r. snd (snd r) = t)
      (concat (map (\<lambda>g. map (\<lambda>e. (e_name e, g_grade g, g_time_attempt g))
                          (filter (\<lambda>e. e_id e = g_exercise_id g) es))
                  (filter (\<lambda>g. g_user_id g = user_id) gs))) =
    concat (map (\<lambda>g. map (\<lambda>e. (e_name e, g_grade g, g_time_attempt g))
                        (filter (\<lambda>e. e_id e = g_exercise_id g) es))
                (filter (\<lambda>g. g_user_id g = user_id \<and> g_time_attempt g = t) gs))"
    for gs :: "grade_row list" and es :: "exercise_row list"
    by (induction gs) (auto simp: filter_map o_def)
  then show ?thesis unfolding join_rows by (simp add: grades_join_def)
qed

text \<open>
  C6. On an open connection, with a \<open>user_id\<close> that fits 64 bits,
  \<open>get_grades_of_user\<close> returns exactly the tuples (exercise name, grade, timestamp)
  made of a row of \<open>grades\<close> of the given user and the row of \<open>exercises\<close> whose id
  is the grade's exercise id (the same tuples, as often); they are ordered by
  timestamp, latest first; and the tuples of any one timestamp stand in the order of
  the rows of \<open>grades\<close>, which is the order in which the grades were inserted. The
  store is left as it was.
\<close>

theorem get_grades_of_user_order:
  assumes "\<not> closed c" and "in_int64 user_id"
  shows "\<exists>rows. get_grades_of_user c user_id = (Inr rows, c) \<and>
           mset rows =
             mset [(e_name e, g_grade g, g_time_attempt g).
                     g \<leftarrow> grades (db c), g_user_id g = user_id,
                     e \<leftarrow> exercises (db c), e_id e = g_exercise_id g] \<and>
           sorted_wrt (\<lambda>a b. snd (snd b) \<le> snd (snd a)) rows \<and>
           (\<forall>t. filter (\<lambda>r. snd (snd r) = t) rows =
                [(e_name e, g_grade g, g_time_attempt g).
                   g \<leftarrow> grades (db c), g_user_id g = user_id \<and> g_time_attempt g = t,
                   e \<leftarrow> exercises (db c), e_id e = g_exercise_id g])"
proof -
  have key: "(\<lambda>(n, g, t). t) = (\<lambda>r :: string \<times> float64 \<times> string. snd (snd r))"
    by (simp add: fun_eq_iff)
  have res: "get_grades_of_user c user_id =
      (Inr (order_by_desc (\<lambda>r. snd (snd r)) (grades_join user_id (db c))), c)"
    using assms
    by (simp add: get_grades_of_user_def frame_defs select_grades_of_user_def key)
  show ?thesis
    unfolding res grades_join_rows [symmetric] grades_join_at [symmetric]
    using order_by_desc_sorted [of "\<lambda>r :: string \<times> float64 \<times> string. snd (snd r)"]
    by (simp add: order_by_desc_mset order_by_desc_stable)
qed

theorem get_grades_of_user_order_witness:
  "\<not> closed demo_class \<and> in_int64 1 \<and>
   get_grades_of_user demo_class 1 =
     (Inr [(''Scales'', Fin 70, ''2025-03-03 09:00:00''),
           (''Test'', Fin 60, ''2025-03-03 09:00:00''),
           (''Scales'', Fin 50, ''2025-03-03 08:30:00'')], demo_class) \<and>
   filter (\<lambda>r. snd (snd r) = ''2025-03-03 09:00:00'') (projr (fst (get_grades_of_user demo_class 1))) =
     [(''Scales'', Fin 70, ''2025-03-03 09:00:00''), (''Test'', Fin 60, ''2025-03-03 09:00:00'')]"
proof -
  have o: "\<not> closed demo_class" "in_int64 1"
    by (simp_all add: demo_class_tables in_int64_def)
  from get_grades_of_user_order [OF o] obtain rows where
    r: "get_grades_of_user demo_class 1 = (Inr rows, demo_class)"
      "mset rows =
         mset [(e_name e, g_grade g, g_time_attempt g).
                 g \<leftarrow> grades (db demo_class), g_user_id g = 1,
                 e \<leftarrow> exercises (db demo_class), e_id e = g_exercise_id g]"
      "sorted_wrt (\<lambda>a b. snd (snd b) \<le> snd (snd a)) rows"
      "\<And>t. filter (\<lambda>r. snd (snd r) = t) rows =
           [(e_name e, g_grade g, g_time_attempt g).
              g \<leftarrow> grades (db demo_class), g_user_id g = 1 \<and> g_time_attempt g = t,
              e \<leftarrow> exercises (db demo_class), e_id e = g_exercise_id g]"
    by blast
  have early: "filter (\<lambda>r. snd (snd r) = ''2025-03-03 09:00:00'') rows =
      [(''Scales'', Fin 70, ''2025-03-03 09:00:00''), (''Test'', Fin 60, ''2025-03-03 09:00:00'')]"
    unfolding r(4) by (simp add: demo_class_tables)
  have ev: "get_grades_of_user demo_class 1 =
     (Inr [(''Scales'', Fin 70, ''2025-03-03 09:00:00''),
           (''Test'', Fin 60, ''2025-03-03 09:00:00''),
           (''Scales'', Fin 50, ''2025-03-03 08:30:00'')], demo_class)"
    using o
    by (simp add: get_grades_of_user_def frame_defs select_grades_of_user_def grades_join_def
        order_by_desc_def demo_class_tables less_eq_char_def less_char_def)
  show ?thesis using o ev early r(1) by simp
qed

subsection \<open>Storage errors\<close>

text \<open>
  C7, as the code has it. On a closed connection \<open>connection.cursor()\<close> raises inside
  the \<open>try\<close> block, the handler prints the error, and \<open>finally: cursor.close()\<close>
  then raises UnboundLocalError, which leaves the call: \<open>add_user\<close> and \<open>get_users\<close>
  on the example store, closed, raise to their caller.
\<close>

theorem add_user_closed_raises:
  "fst (add_user demo_closed ''2025-03-01 12:00:00'' (Some ''Ann'')) = Inl UnboundLocalError \<and>
   fst (get_users demo_closed) = Inl UnboundLocalError \<and>
   fst (add_user (c\<lparr>closed := True\<rparr>) date name) = Inl UnboundLocalError \<and>
   fst (get_users (c\<lparr>closed := True\<rparr>)) = Inl UnboundLocalError"
  by (simp add: demo_closed_def add_user_def get_users_def try_cursor_def)

subsection \<open>One progress row for each pair\<close>

text \<open>
  Whatever \<open>update_user_progression\<close> returns or raises, the progress table is as it
  was or is the table with the row of the pair written.
\<close>

lemma update_user_progression_table:
  "user_progress (db (snd (update_user_progression c date u e g))) = user_progress (db c) \<or>
   (\<exists>a n. user_progress (db (snd (update_user_progression c date u e g))) =
      user_progress (with_progress (db c) u e a n date))"
proof (cases "closed c")
  case True
  then show ?thesis by (simp add: update_user_progression_def try_cursor_def print_err_def)
next
  case opn: False
  show ?thesis
  proof (cases "in_int64 u \<and> in_int64 e")
    case False
    then have "select_progress u e (db c) = Inl OverflowError"
      by (auto simp: select_progress_def on_table_def table_names_def bind_ints_def)
    then show ?thesis
      using opn by (simp add: update_user_progression_def try_cursor_def bind_def query_def)
  next
    case ids: True
    then have sel: "select_progress u e (db c) = Inr (pair_rows (db c) u e)"
      by (simp add: select_progress_rows)
    show ?thesis
    proof (cases "calculate_progress_of_row (fetchone (pair_rows (db c) u e)) g")
      case (Inl x)
      then show ?thesis
        using opn
        by (cases x)
           (simp_all add: update_user_progression_def try_cursor_def bind_def query_def sel
              lift_def print_err_def)
    next
      case (Inr p)
      obtain a n where p: "p = (a, n)" by (cases p) auto
      show ?thesis
      proof (cases "pair_rows (db c) u e = []")
        case True
        then have nokey: "(u, e) \<notin> set (map progress_key (user_progress (db c)))"
          by (simp add: pair_rows_empty_iff)
        have "user_progress (db (snd (update_user_progression c date u e g))) =
            user_progress (db c) \<or>
          user_progress (db (snd (update_user_progression c date u e g))) =
            user_progress (with_progress (db c) u e a n date)"
          using opn ids nokey True Inr
          by (simp add: update_user_progression_def try_cursor_def bind_def query_def sel
              fetchone_def lift_def execute_def insert_progress_def on_table_def
              table_names_def bind_ints_def commit_def with_progress_def print_err_def p)
        then show ?thesis by blast
      next
        case False
        then have key: "(u, e) \<in> set (map progress_key (user_progress (db c)))"
          by (simp add: pair_rows_empty_iff)
        from False obtain r rest where rows: "pair_rows (db c) u e = r # rest"
          by (cases "pair_rows (db c) u e") auto
        have "user_progress (db (snd (update_user_progression c date u e g))) =
            user_progress (db c) \<or>
          user_progress (db (snd (update_user_progression c date u e g))) =
            user_progress (with_progress (db c) u e a n date)"
          using opn ids key Inr
          by (simp add: update_user_progression_def try_cursor_def bind_def query_def sel
              fetchone_def lift_def execute_def update_progress_def on_table_def
              table_names_def bind_ints_def commit_def with_progress_def print_err_def p rows)
        then show ?thesis by blast
      qed
    qed
  qed
qed

text \<open>A row for the pair is there: the update keeps the keys of the table as they are.\<close>

lemma update_user_progression_present:
  assumes "(u, e) \<in> set (map progress_key (user_progress (db c)))"
  shows "map progress_key (user_progress (db (snd (update_user_progression c date u e g)))) =
         map progress_key (user_progress (db c))"
proof -
  have keep: "progress_key \<circ> (\<lambda>r. if progress_key r = (u, e)
        then r\<lparr>p_average_grade := x, p_attempt_count := y, p_last_attempt := z\<rparr> else r) =
      progress_key" for x y z
    by (auto simp: fun_eq_iff progress_key_def)
  have "map progress_key (user_progress (with_progress (db c) u e a n date)) =
      map progress_key (user_progress (db c))" for a n
    using assms by (simp add: with_progress_def keep)
  then show ?thesis
    using update_user_progression_table [of c date u e g] by auto
qed

text \<open>No row for the pair: the table is as it was, or has one more row, for the pair.\<close>

lemma update_user_progression_absent:
  assumes "(u, e) \<notin> set (map progress_key (user_progress (db c)))"
  shows "user_progress (db (snd (update_user_progression c date u e g))) = user_progress (db c) \<or>
         (\<exists>r. progress_key r = (u, e) \<and>
            user_progress (db (snd (update_user_progression c date u e g))) =
              user_progress (db c) @ [r])"
proof -
  have "\<exists>r. progress_key r = (u, e) \<and>
      user_progress (with_progress (db c) u e a n date) = user_progress (db c) @ [r]" for a n
    using assms by (simp add: with_progress_def progress_key_def)
  then show ?thesis
    using update_user_progression_table [of c date u e g] by metis
qed

lemma update_user_progression_distinct:
  assumes "distinct (map progress_key (user_progress (db c)))"
  shows "distinct (map progress_key
           (user_progress (db (snd (update_user_progression c date u e g)))))"
proof (cases "(u, e) \<in> set (map progress_key (user_progress (db c)))")
  case True
  then show ?thesis using assms by (simp add: update_user_progression_present)
next
  case False
  from update_user_progression_absent [OF False, of date g] show ?thesis
    using assms False by auto
qed

text \<open>
  \<open>add_grade\<close> either stops before its call of \<open>update_user_progression\<close>, with the
  progress table as it was, or ends with that call.
\<close>

lemma add_grade_table:
  "user_progress (db (snd (add_grade c date date2 u e g))) = user_progress (db c) \<or>
   add_grade c date date2 u e g =
     update_user_progression
       (c\<lparr>db := with_grade (db c) u e g date, committed := with_grade (db c) u e g date\<rparr>)
       date2 u e g"
proof (cases "closed c")
  case True
  then show ?thesis by (simp add: add_grade_def try_cursor_def print_err_def)
next
  case opn: False
  show ?thesis
  proof (cases "insert_grade u e g date (db c)")
    case (Inl x)
    then show ?thesis
      using opn
      by (cases x) (simp_all add: add_grade_def try_cursor_def bind_def execute_def print_err_def)
  next
    case (Inr d)
    then have "in_int64 u" "in_int64 e" "u \<in> set (user_ids (db c))"
      "e \<in> set (exercise_ids (db c))" "g \<noteq> NaN"
      "last_rowid (seq_grades (db c)) (map g_id (grades (db c))) + 1 < 2 ^ 63"
      by (auto simp: insert_grade_def on_table_def table_names_def bind_ints_def next_rowid_def
          split: if_splits)
    from add_grade_runs_update [OF opn this] show ?thesis by simp
  qed
qed

lemma add_grade_distinct:
  assumes "distinct (map progress_key (user_progress (db c)))"
  shows "distinct (map progress_key (user_progress (db (snd (add_grade c date date2 u e g)))))"
proof -
  let ?c = "c\<lparr>db := with_grade (db c) u e g date, committed := with_grade (db c) u e g date\<rparr>"
  have "distinct (map progress_key (user_progress (db ?c)))"
    using assms by (simp add: with_grade_def)
  from update_user_progression_distinct [OF this, of date2 u e g] show ?thesis
    using add_grade_table [of c date date2 u e g] assms by auto
qed

text \<open>Every other operation leaves the progress table as it was or deletes rows of it.\<close>

lemma exec_other_filter:
  assumes "\<not> inserts_progress op"
  shows "\<exists>P. user_progress (db (exec c op)) = filter P (user_progress (db c))"
proof (cases op)
  case (RemoveUserProgress u)
  show ?thesis
  proof (cases "closed c \<or> \<not> in_int64 u")
    case True
    then have "user_progress (db (exec c op)) = filter (\<lambda>_. True) (user_progress (db c))"
      by (auto simp: RemoveUserProgress op_defs frame_defs stmt_defs)
    then show ?thesis by blast
  next
    case False
    then have "user_progress (db (exec c op)) =
        filter (\<lambda>r. p_user_id r \<noteq> u) (user_progress (db c))"
      by (simp add: RemoveUserProgress op_defs frame_defs stmt_defs)
    then show ?thesis by blast
  qed
next
  case (AddGrade x31 x32 x33 x34 x35)
  then show ?thesis using assms by (simp add: inserts_progress_def)
next
  case (UpdateUserProgression x151 x152 x153 x154)
  then show ?thesis using assms by (simp add: inserts_progress_def)
qed (auto simp: op_defs frame_defs stmt_defs next_rowid_def Let_def
      split: option.splits if_splits intro!: exI [of _ "\<lambda>_. True"])

lemma exec_other_subset:
  assumes "\<not> inserts_progress op"
  shows "set (user_progress (db (exec c op))) \<subseteq> set (user_progress (db c))"
proof -
  from exec_other_filter [OF assms, of c] obtain P
    where "user_progress (db (exec c op)) = filter P (user_progress (db c))" by blast
  then show ?thesis by simp
qed

lemma exec_distinct:
  assumes "distinct (map progress_key (user_progress (db c)))"
  shows "distinct (map progress_key (user_progress (db (exec c op))))"
proof (cases "inserts_progress op")
  case True
  then show ?thesis
    using assms
    by (cases op)
       (simp_all add: inserts_progress_def update_user_progression_distinct add_grade_distinct)
next
  case False
  from exec_other_filter [OF this, of c] obtain P
    where "user_progress (db (exec c op)) = filter P (user_progress (db c))" by blast
  then show ?thesis using assms by (simp add: distinct_map_filter)
qed

lemma reachable_distinct:
  "reachable c \<Longrightarrow> distinct (map progress_key (user_progress (db c)))"
  by (induction rule: reachable.induct)
     (simp_all add: initial_def empty_database_def exec_distinct)

text \<open>
  C9. In every state that sequences of operations reach from the empty store, at most
  one progress row exists for each (user, exercise) pair. \<open>update_user_progression\<close>
  keeps the rows' keys as they are when a row for the pair is present (the row is
  updated in place), and when none is present it leaves the table as it was or appends
  one row for the pair. No operation other than \<open>add_grade\<close> (which calls it) and
  \<open>update_user_progression\<close> adds a row to the progress table.
\<close>

theorem progress_rows_unique:
  assumes "reachable c"
  shows "distinct (map progress_key (user_progress (db c))) \<and>
    (\<forall>date u e g.
       if (u, e) \<in> set (map progress_key (user_progress (db c)))
       then map progress_key (user_progress (db (snd (update_user_progression c date u e g)))) =
            map progress_key (user_progress (db c))
       else user_progress (db (snd (update_user_progression c date u e g))) =
              user_progress (db c) \<or>
            (\<exists>r. progress_key r = (u, e) \<and>
               user_progress (db (snd (update_user_progression c date u e g))) =
                 user_progress (db c) @ [r])) \<and>
    (\<forall>op. \<not> inserts_progress op \<longrightarrow>
       set (user_progress (db (exec c op))) \<subseteq> set (user_progress (db c)))"
  using reachable_distinct [OF assms] update_user_progression_present
    update_user_progression_absent exec_other_subset
  by auto

theorem progress_rows_unique_witness:
  "reachable demo_graded \<and>
   map progress_key (user_progress (db demo_graded)) = [(1, 1)] \<and>
   distinct (map progress_key (user_progress (db demo_graded))) \<and>
   map progress_key (user_progress (db (snd (update_user_progression demo_graded
       ''2025-03-01 12:00:00'' 1 1 (Fin 70))))) = [(1, 1)]"
proof -
  have k: "map progress_key (user_progress (db demo_graded)) = [(1, 1)]"
    by (simp add: demo_graded_eq progress_key_def)
  from progress_rows_unique [OF reachable_demo_graded] have
    "distinct (map progress_key (user_progress (db demo_graded)))"
    "\<And>date u e g. if (u, e) \<in> set (map progress_key (user_progress (db demo_graded)))
       then map progress_key
              (user_progress (db (snd (update_user_progression demo_graded date u e g)))) =
            map progress_key (user_progress (db demo_graded))
       else user_progress (db (snd (update_user_progression demo_graded date u e g))) =
              user_progress (db demo_graded) \<or>
            (\<exists>r. progress_key r = (u, e) \<and>
               user_progress (db (snd (update_user_progression demo_graded date u e g))) =
                 user_progress (db demo_graded) @ [r])"
    by blast+
  from this(1) this(2) [of 1 1 "''2025-03-01 12:00:00''" "Fin 70"] reachable_demo_graded k
  show ?thesis by simp
qed

end
